theory Spec2Isabelle
  imports Main "HOL-Library.Multiset" "HOL-Library.Sublist" "HOL-Library.Product_Lexorder"
begin

section \<open>Google Tasks to-do platform: extraction, priority, conversion and ordering\<close>

text \<open>
  A shallow embedding of \<^verbatim>\<open>homeassistant/components/google_tasks/todo.py\<close>.
  Python strings are lists of 8-bit characters (ASCII text), dictionaries are partial
  maps from strings to strings, and every exception the source can raise is a value:
  a function that may raise returns \<open>exn + 'a\<close>, with \<open>Inl\<close> for the exception.
\<close>

datatype exn = ValueError | KeyError string | TypeError | OverflowError

subsection \<open>Characters and strings\<close>

definition is_digit :: "char \<Rightarrow> bool" where
  "is_digit c = (c \<in> set ''0123456789'')"

text \<open>The characters for which Python's \<^verbatim>\<open>str.isspace\<close> holds, below code point 128;
  they are also the characters that \<^verbatim>\<open>\s\<close> matches.\<close>

definition is_space :: "char \<Rightarrow> bool" where
  "is_space c = (c \<in> set [CHR 0x09, CHR 0x0A, CHR 0x0B, CHR 0x0C, CHR 0x0D,
                           CHR 0x1C, CHR 0x1D, CHR 0x1E, CHR 0x1F, CHR '' ''])"

text \<open>\<^verbatim>\<open>str.lower\<close> on ASCII text.\<close>

definition lower_char :: "char \<Rightarrow> char" where
  "lower_char c =
     (case map_of (zip ''ABCDEFGHIJKLMNOPQRSTUVWXYZ'' ''abcdefghijklmnopqrstuvwxyz'') c of
        None \<Rightarrow> c | Some l \<Rightarrow> l)"

definition lower :: "string \<Rightarrow> string" where
  "lower s = map lower_char s"

text \<open>\<^verbatim>\<open>s.startswith(p)\<close> and the substring test \<^verbatim>\<open>p in s\<close>.\<close>

definition startswith :: "string \<Rightarrow> string \<Rightarrow> bool" where
  "startswith s p = (take (length p) s = p)"

fun contains :: "string \<Rightarrow> string \<Rightarrow> bool" where
  "contains [] p = (p = [])"
| "contains (c # s) p = (startswith (c # s) p \<or> contains s p)"

text \<open>\<^verbatim>\<open>str.strip()\<close>: white space removed at both ends.\<close>

definition strip :: "string \<Rightarrow> string" where
  "strip s = rev (dropWhile is_space (rev (dropWhile is_space s)))"

text \<open>\<^verbatim>\<open>int(s)\<close> on a string of decimal digits, white space around them ignored.\<close>

definition digit_val :: "char \<Rightarrow> nat" where
  "digit_val c = (case map_of (zip ''0123456789'' [0 ..< 10]) c of None \<Rightarrow> 0 | Some v \<Rightarrow> v)"

definition py_int :: "string \<Rightarrow> nat" where
  "py_int s = foldl (\<lambda>acc c. 10 * acc + digit_val c) 0 (strip s)"

subsection \<open>Regular expressions with Python's backtracking order\<close>

text \<open>
  The fragment of \<^verbatim>\<open>re\<close> the module uses: character classes, literals (also
  case-insensitive ones, for the expressions \<^verbatim>\<open>strptime\<close> builds), sequence,
  alternation, the greedy optional \<^verbatim>\<open>?\<close> and the greedy \<^verbatim>\<open>+\<close> on a class.
  \<open>rmatch r s\<close> lists the remainders of \<open>s\<close> after each way \<open>r\<close> can match a
  prefix of \<open>s\<close>, in the order the backtracking matcher tries them.
\<close>

datatype cclass = Digit | Space | OneOf string

fun in_class :: "cclass \<Rightarrow> char \<Rightarrow> bool" where
  "in_class Digit c = is_digit c"
| "in_class Space c = is_space c"
| "in_class (OneOf cs) c = (c \<in> set cs)"

datatype regex =
    Cls cclass
  | Lit string
  | LitI string
  | Seq regex regex
  | Alt regex regex
  | Opt regex
  | Many1 cclass

fun rmatch :: "regex \<Rightarrow> string \<Rightarrow> string list" where
  "rmatch (Cls k) s = (case s of [] \<Rightarrow> [] | c # t \<Rightarrow> if in_class k c then [t] else [])"
| "rmatch (Lit l) s = (if startswith s l then [drop (length l) s] else [])"
| "rmatch (LitI l) s =
     (if length l \<le> length s \<and> lower (take (length l) s) = lower l
      then [drop (length l) s] else [])"
| "rmatch (Seq a b) s = concat (map (rmatch b) (rmatch a s))"
| "rmatch (Alt a b) s = rmatch a s @ rmatch b s"
| "rmatch (Opt a) s = rmatch a s @ [s]"
| "rmatch (Many1 k) s =
     map (\<lambda>i. drop i s) (rev [1 ..< Suc (length (takeWhile (in_class k) s))])"

text \<open>\<^verbatim>\<open>re.match(r, s)\<close>: the text of the first match at the start of \<open>s\<close>.\<close>

definition re_match :: "regex \<Rightarrow> string \<Rightarrow> string option" where
  "re_match r s =
     (case rmatch r s of [] \<Rightarrow> None | rest # _ \<Rightarrow> Some (take (length s - length rest) s))"

text \<open>\<^verbatim>\<open>re.search(r, s)\<close> followed by \<^verbatim>\<open>.group()\<close>: the leftmost match.\<close>

fun re_search :: "regex \<Rightarrow> string \<Rightarrow> string option" where
  "re_search r [] = re_match r []"
| "re_search r (c # s) =
     (case re_match r (c # s) of Some m \<Rightarrow> Some m | None \<Rightarrow> re_search r s)"

fun seqs :: "regex list \<Rightarrow> regex" where
  "seqs [] = Lit []"
| "seqs [r] = r"
| "seqs (r # rs) = Seq r (seqs rs)"

fun alts :: "regex list \<Rightarrow> regex" where
  "alts [] = Cls (OneOf [])"
| "alts [r] = r"
| "alts (r # rs) = Alt r (alts rs)"

abbreviation re_d :: regex where "re_d \<equiv> Cls Digit"
abbreviation re_d2 :: regex where "re_d2 \<equiv> Seq re_d re_d"
abbreviation re_d4 :: regex where "re_d4 \<equiv> Seq re_d (Seq re_d (Seq re_d re_d))"
abbreviation re_d12 :: regex where "re_d12 \<equiv> Seq re_d (Opt re_d)"
abbreviation re_s :: regex where "re_s \<equiv> Cls Space"
abbreviation re_slash :: regex where "re_slash \<equiv> Lit ''/''"

definition MONTHS :: regex where
  "MONTHS = alts (map Lit [''Jan'', ''Feb'', ''Mar'', ''Apr'', ''May'', ''Jun'',
                           ''Jul'', ''Aug'', ''Sep'', ''Oct'', ''Nov'', ''Dec''])"

subsection \<open>Dates and times\<close>

text \<open>
  \<^verbatim>\<open>datetime.datetime\<close>. \<open>tzinfo\<close> is the offset from UTC in minutes;
  \<open>None\<close> is a naive timestamp.
\<close>

record datetime =
  year :: nat
  month :: nat
  day :: nat
  hour :: nat
  minute :: nat
  second :: nat
  microsecond :: nat
  tzinfo :: "int option"

definition is_leap :: "nat \<Rightarrow> bool" where
  "is_leap y = (y mod 4 = 0 \<and> (y mod 100 \<noteq> 0 \<or> y mod 400 = 0))"

definition days_in_month :: "nat \<Rightarrow> nat \<Rightarrow> nat" where
  "days_in_month y m =
     (if m = 2 then (if is_leap y then 29 else 28)
      else if m \<in> set [4, 6, 9, 11] then 30 else 31)"

definition valid_date :: "nat \<Rightarrow> nat \<Rightarrow> nat \<Rightarrow> bool" where
  "valid_date y m d =
     (1 \<le> y \<and> y \<le> 9999 \<and> 1 \<le> m \<and> m \<le> 12 \<and> 1 \<le> d \<and> d \<le> days_in_month y m)"

definition mk_datetime :: "nat \<Rightarrow> nat \<Rightarrow> nat \<Rightarrow> nat \<Rightarrow> nat \<Rightarrow> datetime" where
  "mk_datetime y m d h mi =
     \<lparr>year = y, month = m, day = d, hour = h, minute = mi, second = 0, microsecond = 0,
      tzinfo = None\<rparr>"

text \<open>\<^verbatim>\<open>datetime.max\<close>, a naive timestamp.\<close>

definition datetime_max :: datetime where
  "datetime_max =
     \<lparr>year = 9999, month = 12, day = 31, hour = 23, minute = 59, second = 59,
      microsecond = 999999, tzinfo = None\<rparr>"

text \<open>\<^verbatim>\<open>d.replace(hour=h, minute=m)\<close>, which validates the new fields.\<close>

definition replace_hm :: "datetime \<Rightarrow> nat \<Rightarrow> nat \<Rightarrow> exn + datetime" where
  "replace_hm d h m = (if h < 24 \<and> m < 60 then Inr (d\<lparr>hour := h, minute := m\<rparr>) else Inl ValueError)"

subsection \<open>\<^verbatim>\<open>datetime.strptime\<close>\<close>

text \<open>
  \<^verbatim>\<open>strptime\<close> turns the format into a case-insensitive regular expression, one
  group for each directive and \<^verbatim>\<open>\s+\<close> for each run of white space, matches it at
  the start of the data, and raises \<^verbatim>\<open>ValueError\<close> when it does not match, when
  text remains after the match, or when the fields are no calendar date. A format is
  written here as the list of its items: \<^verbatim>\<open>%d/%m/%Y\<close> is
  \<open>[Dir Dd, Ch CHR ''/'', Dir Dm, Ch CHR ''/'', Dir DY]\<close>. Month and AM/PM names are
  those of the C locale.
\<close>

datatype directive = Dd | Dm | DY | Db | DH | DM | DI | Dp

datatype fitem = Dir directive | Ws | Ch char

definition month_names :: "string list" where
  "month_names = [''jan'', ''feb'', ''mar'', ''apr'', ''may'', ''jun'',
                  ''jul'', ''aug'', ''sep'', ''oct'', ''nov'', ''dec'']"

abbreviation re_set :: "string \<Rightarrow> regex" where "re_set cs \<equiv> Cls (OneOf cs)"

fun directive_re :: "directive \<Rightarrow> regex" where
  "directive_re Dd = alts [Seq (Lit ''3'') (re_set ''01''), Seq (re_set ''12'') re_d,
                          Seq (Lit ''0'') (re_set ''123456789''), re_set ''123456789'',
                          Seq (Lit '' '') (re_set ''123456789'')]"
| "directive_re Dm = alts [Seq (Lit ''1'') (re_set ''012''), Seq (Lit ''0'') (re_set ''123456789''),
                          re_set ''123456789'']"
| "directive_re DY = re_d4"
| "directive_re Db = alts (map LitI month_names)"
| "directive_re DH = alts [Seq (Lit ''2'') (re_set ''0123''), Seq (re_set ''01'') re_d, re_d]"
| "directive_re DM = alts [Seq (re_set ''012345'') re_d, re_d]"
| "directive_re DI = alts [Seq (Lit ''1'') (re_set ''012''), Seq (Lit ''0'') (re_set ''123456789''),
                          re_set ''123456789'']"
| "directive_re Dp = alts [LitI ''am'', LitI ''pm'']"

text \<open>All the ways the format matches a prefix of the data, in backtracking order:
  the text of each directive's group, and the remainder.\<close>

fun match_items :: "fitem list \<Rightarrow> string \<Rightarrow> ((directive \<times> string) list \<times> string) list" where
  "match_items [] s = [([], s)]"
| "match_items (Dir c # fs) s =
     concat (map (\<lambda>r. map (\<lambda>(caps, rest). ((c, take (length s - length r) s) # caps, rest))
                           (match_items fs r))
                 (rmatch (directive_re c) s))"
| "match_items (Ws # fs) s = concat (map (match_items fs) (rmatch (Many1 Space) s))"
| "match_items (Ch c # fs) s = concat (map (match_items fs) (rmatch (LitI [c]) s))"

fun index_of :: "'a \<Rightarrow> 'a list \<Rightarrow> nat" where
  "index_of x [] = 0"
| "index_of x (y # ys) = (if x = y then 0 else Suc (index_of x ys))"

text \<open>The fields \<^verbatim>\<open>_strptime\<close> computes from the groups; a field without a
  directive keeps its default (1900-01-01 00:00).\<close>

definition group_nat :: "(directive \<times> string) list \<Rightarrow> directive \<Rightarrow> nat \<Rightarrow> nat" where
  "group_nat caps c dflt = (case map_of caps c of None \<Rightarrow> dflt | Some t \<Rightarrow> py_int t)"

definition field_month :: "(directive \<times> string) list \<Rightarrow> nat" where
  "field_month caps =
     (case map_of caps Db of
        Some t \<Rightarrow> Suc (index_of (lower t) month_names)
      | None \<Rightarrow> group_nat caps Dm 1)"

definition field_hour :: "(directive \<times> string) list \<Rightarrow> nat" where
  "field_hour caps =
     (case map_of caps DI of
        None \<Rightarrow> group_nat caps DH 0
      | Some t \<Rightarrow>
          (let h = py_int t;
               ampm = (case map_of caps Dp of None \<Rightarrow> [] | Some p \<Rightarrow> lower p)
           in if ampm = [] \<or> ampm = ''am'' then (if h = 12 then 0 else h)
              else if ampm = ''pm'' then (if h \<noteq> 12 then h + 12 else h)
              else h))"

definition strptime :: "string \<Rightarrow> fitem list \<Rightarrow> exn + datetime" where
  "strptime data fmt =
     (case match_items fmt data of
        [] \<Rightarrow> Inl ValueError
      | (caps, rest) # _ \<Rightarrow>
          if rest \<noteq> [] then Inl ValueError
          else
            (let y = group_nat caps DY 1900; m = field_month caps; d = group_nat caps Dd 1
             in if valid_date y m d
                then Inr (mk_datetime y m d (field_hour caps) (group_nat caps DM 0))
                else Inl ValueError))"

subsection \<open>The pattern tables\<close>

definition fmt_Ymd :: "fitem list" where
  "fmt_Ymd = [Dir DY, Ch CHR ''/'', Dir Dm, Ch CHR ''/'', Dir Dd]"

definition fmt_dmY :: "fitem list" where
  "fmt_dmY = [Dir Dd, Ch CHR ''/'', Dir Dm, Ch CHR ''/'', Dir DY]"

definition fmt_mdY :: "fitem list" where
  "fmt_mdY = [Dir Dm, Ch CHR ''/'', Dir Dd, Ch CHR ''/'', Dir DY]"

definition fmt_d_b_Y :: "fitem list" where
  "fmt_d_b_Y = [Dir Dd, Ws, Dir Db, Ws, Dir DY]"

definition fmt_b_d_Y :: "fitem list" where
  "fmt_b_d_Y = [Dir Db, Ws, Dir Dd, Ws, Dir DY]"

definition fmt_Y_b_d :: "fitem list" where
  "fmt_Y_b_d = [Dir DY, Ws, Dir Db, Ws, Dir Dd]"

definition fmt_Y_d_b :: "fitem list" where
  "fmt_Y_d_b = [Dir DY, Ws, Dir Dd, Ws, Dir Db]"

definition fmt_I_M_p :: "fitem list" where
  "fmt_I_M_p = [Dir DI, Ch CHR '':'', Dir DM, Ws, Dir Dp]"

definition fmt_H_M :: "fitem list" where
  "fmt_H_M = [Dir DH, Ch CHR '':'', Dir DM]"

definition pat_Ymd :: regex where
  "pat_Ymd = seqs [re_d4, re_slash, re_d2, re_slash, re_d2]"

definition pat_slash :: regex where
  "pat_slash = seqs [re_d2, re_slash, re_d2, re_slash, re_d4]"

definition pat_d_b_Y :: regex where
  "pat_d_b_Y = seqs [re_d12, re_s, MONTHS, re_s, re_d4]"

definition pat_b_d_comma_Y :: regex where
  "pat_b_d_comma_Y = seqs [MONTHS, re_s, re_d12, Opt (Lit '',''), re_s, re_d4]"

definition pat_b_d_Y :: regex where
  "pat_b_d_Y = seqs [MONTHS, re_s, re_d12, re_s, re_d4]"

definition pat_Y_b_d :: regex where
  "pat_Y_b_d = seqs [re_d4, re_s, MONTHS, re_s, re_d12]"

definition pat_Y_d_b :: regex where
  "pat_Y_d_b = seqs [re_d4, re_s, re_d12, re_s, MONTHS]"

definition DATE_PATTERNS :: "(regex \<times> fitem list) list" where
  "DATE_PATTERNS =
     [(pat_Ymd, fmt_Ymd),
      (pat_slash, fmt_dmY),
      (pat_slash, fmt_mdY),
      (pat_d_b_Y, fmt_d_b_Y),
      (pat_b_d_comma_Y, fmt_b_d_Y),
      (pat_b_d_Y, fmt_b_d_Y),
      (pat_Y_b_d, fmt_Y_b_d),
      (pat_Y_d_b, fmt_Y_d_b)]"

definition TIME_PATTERN :: regex where
  "TIME_PATTERN = seqs [re_d12, Lit '':'', re_d2, Opt (seqs [Opt re_s, re_set ''AP'', Lit ''M''])]"

definition PRIORITY_KEYWORDS :: "string list" where
  "PRIORITY_KEYWORDS = [''ASAP'', ''Urgent'', ''Immediately'', ''Critical'', ''Important'',
                        ''Top Priority'', ''Must Do'', ''High Importance'']"

subsection \<open>Priority detection and date extraction\<close>

definition is_priority_task :: "string \<Rightarrow> string option \<Rightarrow> bool" where
  "is_priority_task title description =
     (let text = lower (title @ '' '' @ (case description of None \<Rightarrow> [] | Some n \<Rightarrow> n))
      in list_ex (\<lambda>keyword. contains text (lower keyword)) PRIORITY_KEYWORDS)"

text \<open>The loop over the date patterns: the first pattern that matches and whose match
  parses gives the date; a \<^verbatim>\<open>ValueError\<close> moves on to the next pattern.\<close>

fun find_date :: "(regex \<times> fitem list) list \<Rightarrow> string \<Rightarrow> exn + datetime option" where
  "find_date [] text = Inr None"
| "find_date ((pattern, date_format) # ps) text =
     (case re_search pattern text of
        None \<Rightarrow> find_date ps text
      | Some date_match \<Rightarrow>
          (case strptime date_match date_format of
             Inr d \<Rightarrow> Inr (Some d)
           | Inl ValueError \<Rightarrow> find_date ps text
           | Inl e \<Rightarrow> Inl e))"

text \<open>The body of the second \<^verbatim>\<open>try\<close>: parse the time, overwrite hour and minute.\<close>

definition apply_time :: "datetime \<Rightarrow> string \<Rightarrow> exn + datetime" where
  "apply_time extracted_date extracted_time =
     (case (if contains extracted_time ''AM'' \<or> contains extracted_time ''PM''
            then strptime (strip extracted_time) fmt_I_M_p
            else strptime (strip extracted_time) fmt_H_M) of
        Inl e \<Rightarrow> Inl e
      | Inr time_obj \<Rightarrow> replace_hm extracted_date (hour time_obj) (minute time_obj))"

definition extract_date_time :: "string \<Rightarrow> exn + (datetime option \<times> string option)" where
  "extract_date_time text =
     (case find_date DATE_PATTERNS text of
        Inl e \<Rightarrow> Inl e
      | Inr extracted_date \<Rightarrow>
          (let extracted_time = re_search TIME_PATTERN text
           in case (extracted_date, extracted_time) of
                (Some d, Some t) \<Rightarrow>
                  if t = [] then Inr (extracted_date, extracted_time)
                  else (case apply_time d t of
                          Inr d' \<Rightarrow> Inr (Some d', extracted_time)
                        | Inl ValueError \<Rightarrow> Inr (extracted_date, extracted_time)
                        | Inl e \<Rightarrow> Inl e)
              | _ \<Rightarrow> Inr (extracted_date, extracted_time)))"

subsection \<open>Remote task records and local items\<close>

text \<open>A record of the remote store: a dictionary with the keys \<^verbatim>\<open>id\<close>,
  \<^verbatim>\<open>title\<close>, \<^verbatim>\<open>status\<close>, \<^verbatim>\<open>due\<close>, \<^verbatim>\<open>notes\<close>.\<close>

type_synonym task = "string \<rightharpoonup> string"

datatype TodoItemStatus = NEEDS_ACTION | COMPLETED

record TodoItem =
  summary :: string
  uid :: "string option"
  status :: "TodoItemStatus option"
  due :: "datetime option"
  description :: "string option"

definition TODO_STATUS_MAP :: "string \<rightharpoonup> TodoItemStatus" where
  "TODO_STATUS_MAP = [''needsAction'' \<mapsto> NEEDS_ACTION, ''completed'' \<mapsto> COMPLETED]"

definition TODO_STATUS_MAP_INV :: "TodoItemStatus \<rightharpoonup> string" where
  "TODO_STATUS_MAP_INV = [NEEDS_ACTION \<mapsto> ''needsAction'', COMPLETED \<mapsto> ''completed'']"

text \<open>\<^verbatim>\<open>d.get(k, default)\<close> and \<^verbatim>\<open>d[k]\<close>.\<close>

definition get_or :: "('k \<rightharpoonup> 'v) \<Rightarrow> 'k \<Rightarrow> 'v \<Rightarrow> 'v" where
  "get_or m k dflt = (case m k of None \<Rightarrow> dflt | Some v \<Rightarrow> v)"

definition subscript :: "task \<Rightarrow> string \<Rightarrow> exn + string" where
  "subscript m k = (case m k of None \<Rightarrow> Inl (KeyError k) | Some v \<Rightarrow> Inr v)"

text \<open>The text both fallbacks scan: \<^verbatim>\<open>f"{title} {notes}"\<close>, each defaulting to
  the empty string.\<close>

definition title_notes :: "task \<Rightarrow> string" where
  "title_notes item = get_or item ''title'' [] @ '' '' @ get_or item ''notes'' []"

text \<open>
  \<^verbatim>\<open>dt_util.parse_datetime\<close> belongs to \<^verbatim>\<open>homeassistant/util/dt.py\<close>, which is
  not part of the sources at hand; the functions that call it take it as the parameter
  \<open>parse_datetime\<close>. Applied to the \<^verbatim>\<open>due\<close> string it returns a timestamp, or
  \<^verbatim>\<open>None\<close> for a string that is not well formed, or it raises (the library
  function raises \<^verbatim>\<open>ValueError\<close> for a well-formed string that is no valid
  timestamp). Neither caller catches what it raises.
\<close>

type_synonym parser = "string \<Rightarrow> exn + datetime option"

definition convert_api_item :: "parser \<Rightarrow> task \<Rightarrow> exn + TodoItem" where
  "convert_api_item parse_datetime item =
     (case (case item ''due'' of
              Some due_str \<Rightarrow> parse_datetime due_str
            | None \<Rightarrow>
                (case extract_date_time (title_notes item) of
                   Inl e \<Rightarrow> Inl e
                 | Inr (extracted_datetime, _) \<Rightarrow> Inr extracted_datetime)) of
        Inl e \<Rightarrow> Inl e
      | Inr due_v \<Rightarrow>
          (case subscript item ''title'' of
             Inl e \<Rightarrow> Inl e
           | Inr title \<Rightarrow>
               (case subscript item ''id'' of
                  Inl e \<Rightarrow> Inl e
                | Inr ident \<Rightarrow>
                    Inr \<lparr>summary = title, uid = Some ident,
                         status = Some (get_or TODO_STATUS_MAP (get_or item ''status'' []) NEEDS_ACTION),
                         due = due_v, description = item ''notes''\<rparr>)))"

subsection \<open>From a local item to a remote record\<close>

fun dec :: "nat \<Rightarrow> string" where
  "dec n = (if n < 10 then [''0123456789'' ! n] else dec (n div 10) @ [''0123456789'' ! (n mod 10)])"

text \<open>\<^verbatim>\<open>"%0wd" % n\<close>.\<close>

definition zpad :: "nat \<Rightarrow> nat \<Rightarrow> string" where
  "zpad w n = replicate (w - length (dec n)) CHR ''0'' @ dec n"

definition format_offset :: "int \<Rightarrow> string" where
  "format_offset off =
     (if off < 0 then ''-'' else ''+'') @ zpad 2 (nat \<bar>off\<bar> div 60) @ '':'' @ zpad 2 (nat \<bar>off\<bar> mod 60)"

text \<open>\<^verbatim>\<open>datetime.isoformat()\<close>: the microseconds appear when they are not zero, the
  UTC offset when the timestamp is aware.\<close>

definition iso_local :: "datetime \<Rightarrow> string" where
  "iso_local d =
     zpad 4 (year d) @ ''-'' @ zpad 2 (month d) @ ''-'' @ zpad 2 (day d) @ ''T''
     @ zpad 2 (hour d) @ '':'' @ zpad 2 (minute d) @ '':'' @ zpad 2 (second d)
     @ (if microsecond d \<noteq> 0 then ''.'' @ zpad 6 (microsecond d) else [])"

definition isoformat :: "datetime \<Rightarrow> string" where
  "isoformat d = iso_local d @ (case tzinfo d of None \<Rightarrow> [] | Some off \<Rightarrow> format_offset off)"

definition format_due_datetime :: "datetime \<Rightarrow> string" where
  "format_due_datetime due_v = isoformat due_v @ ''Z''"

text \<open>
  \<^verbatim>\<open>dt_util.as_utc\<close> is not part of the sources at hand either;
  \<open>convert_todo_item\<close> takes it as the parameter \<open>as_utc\<close>.
\<close>

definition convert_todo_item :: "(datetime \<Rightarrow> exn + datetime) \<Rightarrow> TodoItem \<Rightarrow> exn + task" where
  "convert_todo_item as_utc item =
     (let result = [''title'' \<mapsto> summary item,
                    ''status'' \<mapsto> (case status item of
                                        None \<Rightarrow> ''needsAction''
                                      | Some st \<Rightarrow> get_or TODO_STATUS_MAP_INV st ''needsAction'')]
      in case (case due item of
                 None \<Rightarrow> Inr result
               | Some d \<Rightarrow>
                   (case as_utc d of
                      Inl e \<Rightarrow> Inl e
                    | Inr u \<Rightarrow> Inr (result(''due'' \<mapsto> format_due_datetime u)))) of
           Inl e \<Rightarrow> Inl e
         | Inr result \<Rightarrow>
             (case description item of
                Some (c # cs) \<Rightarrow> Inr (result(''notes'' \<mapsto> c # cs))
              | _ \<Rightarrow> Inr result))"

subsection \<open>Ordering\<close>

text \<open>Days before the date in the proleptic Gregorian calendar (\<^verbatim>\<open>toordinal\<close>),
  and the microseconds from the start of that calendar to the timestamp, the UTC offset
  subtracted for an aware one.\<close>

definition days_before_year :: "nat \<Rightarrow> int" where
  "days_before_year y =
     (let p = int y - 1 in p * 365 + p div 4 - p div 100 + p div 400)"

definition days_before_month :: "nat \<Rightarrow> nat \<Rightarrow> int" where
  "days_before_month y m = int (sum_list (map (days_in_month y) [1 ..< m]))"

definition toordinal :: "datetime \<Rightarrow> int" where
  "toordinal d = days_before_year (year d) + days_before_month (year d) (month d) + int (day d)"

definition instant :: "datetime \<Rightarrow> int" where
  "instant d =
     (((toordinal d * 24 + int (hour d)) * 60 + int (minute d)
        - (case tzinfo d of None \<Rightarrow> 0 | Some off \<Rightarrow> off)) * 60 + int (second d)) * 1000000
      + int (microsecond d)"

text \<open>
  Comparison of the third component of the sort key, which is a timestamp or
  \<^verbatim>\<open>None\<close> (what \<open>parse_datetime\<close> gives for a string it cannot parse).
  \<^verbatim>\<open>==\<close> never raises: a naive and an aware timestamp are unequal. \<^verbatim>\<open><\<close>
  raises \<^verbatim>\<open>TypeError\<close> between a naive and an aware timestamp and whenever
  \<^verbatim>\<open>None\<close> takes part. Two naive timestamps compare field by field and two aware
  ones by their UTC times; for the field values of a \<^verbatim>\<open>datetime\<close> both are the
  comparison of the instants.
\<close>

definition due_eq :: "datetime option \<Rightarrow> datetime option \<Rightarrow> bool" where
  "due_eq a b =
     (case (a, b) of
        (None, None) \<Rightarrow> True
      | (Some x, Some y) \<Rightarrow> (tzinfo x = None) = (tzinfo y = None) \<and> instant x = instant y
      | _ \<Rightarrow> False)"

definition due_lt :: "datetime option \<Rightarrow> datetime option \<Rightarrow> exn + bool" where
  "due_lt a b =
     (case (a, b) of
        (Some x, Some y) \<Rightarrow>
          if (tzinfo x = None) = (tzinfo y = None) then Inr (instant x < instant y)
          else Inl TypeError
      | _ \<Rightarrow> Inl TypeError)"

type_synonym sortkey = "bool \<times> bool \<times> datetime option"

text \<open>\<^verbatim>\<open><\<close> on the key tuples: the first components that differ under \<^verbatim>\<open>==\<close>
  decide; equal tuples are not less.\<close>

fun key_lt :: "sortkey \<Rightarrow> sortkey \<Rightarrow> exn + bool" where
  "key_lt (c1, p1, d1) (c2, p2, d2) =
     (if c1 \<noteq> c2 then Inr (c1 < c2)
      else if p1 \<noteq> p2 then Inr (p1 < p2)
      else if due_eq d1 d2 then Inr False
      else due_lt d1 d2)"

text \<open>
  \<^verbatim>\<open>sorted(xs, key=f)\<close> computes every key first, then sorts stably, comparing keys
  with \<^verbatim>\<open><\<close> only; an exception of \<open>f\<close> or of a comparison ends it. The sort is
  modelled as the stable insertion sort. A stable sort has one result, whatever its
  algorithm. Which pairs it compares depends on the algorithm, but for these keys
  whether it raises does not: it raises exactly when two keys with equal flags have
  timestamps of different kinds (\<open>sort_pairs_comparable\<close> and
  \<open>sort_pairs_succeeds\<close> below), and no comparison other than one between two such
  keys can tell their order.
\<close>

fun with_keys :: "('a \<Rightarrow> exn + sortkey) \<Rightarrow> 'a list \<Rightarrow> exn + (sortkey \<times> 'a) list" where
  "with_keys f [] = Inr []"
| "with_keys f (x # xs) =
     (case f x of
        Inl e \<Rightarrow> Inl e
      | Inr k \<Rightarrow> (case with_keys f xs of Inl e \<Rightarrow> Inl e | Inr ks \<Rightarrow> Inr ((k, x) # ks)))"

fun insert_sorted :: "sortkey \<times> 'a \<Rightarrow> (sortkey \<times> 'a) list \<Rightarrow> exn + (sortkey \<times> 'a) list" where
  "insert_sorted x [] = Inr [x]"
| "insert_sorted x (y # ys) =
     (case key_lt (fst y) (fst x) of
        Inl e \<Rightarrow> Inl e
      | Inr True \<Rightarrow> (case insert_sorted x ys of Inl e \<Rightarrow> Inl e | Inr zs \<Rightarrow> Inr (y # zs))
      | Inr False \<Rightarrow> Inr (x # y # ys))"

fun sort_pairs :: "(sortkey \<times> 'a) list \<Rightarrow> exn + (sortkey \<times> 'a) list" where
  "sort_pairs [] = Inr []"
| "sort_pairs (x # xs) =
     (case sort_pairs xs of Inl e \<Rightarrow> Inl e | Inr ys \<Rightarrow> insert_sorted x ys)"

definition sorted_py :: "('a \<Rightarrow> exn + sortkey) \<Rightarrow> 'a list \<Rightarrow> exn + 'a list" where
  "sorted_py f xs =
     (case with_keys f xs of
        Inl e \<Rightarrow> Inl e
      | Inr ks \<Rightarrow> (case sort_pairs ks of Inl e \<Rightarrow> Inl e | Inr ys \<Rightarrow> Inr (map snd ys)))"

definition get_due_date :: "parser \<Rightarrow> task \<Rightarrow> exn + datetime option" where
  "get_due_date parse_datetime task =
     (case task ''due'' of
        Some (c # cs) \<Rightarrow> parse_datetime (c # cs)
      | _ \<Rightarrow>
          (case extract_date_time (title_notes task) of
             Inl e \<Rightarrow> Inl e
           | Inr (extracted_datetime, _) \<Rightarrow>
               Inr (case extracted_datetime of None \<Rightarrow> Some datetime_max | Some d \<Rightarrow> Some d)))"

definition is_completed :: "task \<Rightarrow> bool" where
  "is_completed task = (task ''status'' = Some ''completed'')"

definition sort_key_task :: "parser \<Rightarrow> task \<Rightarrow> exn + sortkey" where
  "sort_key_task parse_datetime task =
     (case subscript task ''title'' of
        Inl e \<Rightarrow> Inl e
      | Inr title \<Rightarrow>
          (case get_due_date parse_datetime task of
             Inl e \<Rightarrow> Inl e
           | Inr due_date \<Rightarrow>
               Inr (is_completed task, \<not> is_priority_task title (task ''notes''), due_date)))"

definition order_tasks :: "parser \<Rightarrow> task list \<Rightarrow> exn + task list" where
  "order_tasks parse_datetime tasks =
     (let incomplete_tasks = filter (\<lambda>task. \<not> is_completed task) tasks;
          completed_tasks = filter is_completed tasks
      in case sorted_py (sort_key_task parse_datetime) incomplete_tasks of
           Inl e \<Rightarrow> Inl e
         | Inr sorted_incomplete \<Rightarrow>
             (case sorted_py (sort_key_task parse_datetime) completed_tasks of
                Inl e \<Rightarrow> Inl e
              | Inr sorted_completed \<Rightarrow> Inr (sorted_completed @ sorted_incomplete)))"

subsection \<open>Sample instances of the two parameters\<close>

text \<open>
  Modelled from the spec: \<^verbatim>\<open>dt_util.parse_datetime\<close> is missing from the sources;
  the spec calls \<^verbatim>\<open>due\<close> an "ISO-8601 UTC timestamp string", "parsed directly if
  present and parseable". \<open>parse_datetime_iso\<close> parses the form
  \<^verbatim>\<open>YYYY-MM-DDTHH:MM:SS\<close>, an optional fraction of up to six digits, and an optional
  \<^verbatim>\<open>Z\<close> or \<^verbatim>\<open>+HH:MM\<close> / \<^verbatim>\<open>-HH:MM\<close>; the result is aware when an offset is
  given and naive otherwise. A string that is not of this form gives \<open>None\<close>; a
  string of this form whose fields are no calendar date or time of day raises
  \<^verbatim>\<open>ValueError\<close>, as the library function does. It only instantiates the parameter
  in examples.
\<close>

definition parse_offset :: "string \<Rightarrow> int option option" where
  "parse_offset s =
     (if s = [] then Some None
      else if s = ''Z'' then Some (Some 0)
      else if length s = 6 \<and> hd s \<in> set ''+-'' \<and> s ! 3 = CHR '':''
              \<and> list_all is_digit (take 2 (drop 1 s)) \<and> list_all is_digit (drop 4 s)
              \<and> py_int (take 2 (drop 1 s)) < 24 \<and> py_int (drop 4 s) < 60
      then Some (Some ((if hd s = CHR ''-'' then - 1 else 1)
                        * int (py_int (take 2 (drop 1 s)) * 60 + py_int (drop 4 s))))
      else None)"

definition parse_fraction :: "string \<Rightarrow> (nat \<times> string) option" where
  "parse_fraction s =
     (case s of
        CHR ''.'' # t \<Rightarrow>
          (let f = takeWhile is_digit t
           in if f = [] \<or> 6 < length f then None
              else Some (py_int (f @ replicate (6 - length f) CHR ''0''), drop (length f) t))
      | _ \<Rightarrow> Some (0, s))"

definition parse_datetime_iso :: parser where
  "parse_datetime_iso s =
     (if length s < 19
         \<or> \<not> list_all2 (\<lambda>m c. if m = CHR ''d'' then is_digit c else c = m)
                          ''dddd-dd-ddTdd:dd:dd'' (take 19 s)
      then Inr None
      else
        (case parse_fraction (drop 19 s) of
           None \<Rightarrow> Inr None
         | Some (us, rest) \<Rightarrow>
             (case parse_offset rest of
                None \<Rightarrow> Inr None
              | Some tz \<Rightarrow>
                  (let y = py_int (take 4 s); mo = py_int (take 2 (drop 5 s));
                       d = py_int (take 2 (drop 8 s)); h = py_int (take 2 (drop 11 s));
                       mi = py_int (take 2 (drop 14 s)); sec = py_int (take 2 (drop 17 s))
                   in if \<not> valid_date y mo d \<or> 24 \<le> h \<or> 60 \<le> mi \<or> 60 \<le> sec
                      then Inl ValueError
                      else Inr (Some \<lparr>year = y, month = mo, day = d, hour = h, minute = mi,
                                        second = sec, microsecond = us, tzinfo = tz\<rparr>)))))"

text \<open>
  Modelled from the spec: \<^verbatim>\<open>dt_util.as_utc\<close> is missing from the sources; the spec
  says "the due timestamp converted to UTC". \<open>as_utc_fixed\<close> moves an aware timestamp
  to offset zero, and takes a naive one to be in a default zone with the fixed offset
  \<open>local_offset\<close>. The date of an ordinal is computed as \<^verbatim>\<open>datetime\<close> does; a result
  outside the years 1 to 9999 is an \<^verbatim>\<open>OverflowError\<close>. It only instantiates the
  parameter in examples.
\<close>

definition ord2ymd :: "int \<Rightarrow> nat \<times> nat \<times> nat" where
  "ord2ymd n =
     (let n0 = n - 1;
          n400 = n0 div 146097; r = n0 mod 146097;
          n100 = r div 36524; r2 = r mod 36524;
          n4 = r2 div 1461; r3 = r2 mod 1461;
          n1 = r3 div 365; r4 = r3 mod 365;
          yr = nat (n400 * 400 + 1 + n100 * 100 + n4 * 4 + n1)
      in if n1 = 4 \<or> n100 = 4 then (yr - 1, 12, 31)
         else
           (let mo = nat ((r4 + 50) div 32);
                mo' = (if days_before_month yr mo > r4 then mo - 1 else mo)
            in (yr, mo', nat (r4 - days_before_month yr mo' + 1))))"

definition as_utc_fixed :: "int \<Rightarrow> datetime \<Rightarrow> exn + datetime" where
  "as_utc_fixed local_offset d =
     (if tzinfo d = Some 0 then Inr d
      else
        (let off = (case tzinfo d of None \<Rightarrow> local_offset | Some o' \<Rightarrow> o');
             total = (toordinal d * 24 + int (hour d)) * 60 + int (minute d) - off;
             n = total div 1440; rest = nat (total mod 1440)
         in if n < 1 \<or> 3652059 < n then Inl OverflowError
            else (case ord2ymd n of
                    (y, mo, dd) \<Rightarrow>
                      Inr (d\<lparr>year := y, month := mo, day := dd, hour := rest div 60,
                             minute := rest mod 60, tzinfo := Some 0\<rparr>))))"

subsection \<open>Notions used in the statements\<close>

text \<open>The priority rule in the words of the specification: some phrase of the fixed
  list, lowercased, is a contiguous part of the lowercased title, a space, and the notes.\<close>

definition is_priority_spec :: "string \<Rightarrow> string option \<Rightarrow> bool" where
  "is_priority_spec title notes =
     (\<exists>phrase \<in> {''ASAP'', ''Urgent'', ''Immediately'', ''Critical'', ''Important'',
                  ''Top Priority'', ''Must Do'', ''High Importance''}.
        sublist (lower phrase)
                (lower (title @ '' '' @ (case notes of None \<Rightarrow> [] | Some n \<Rightarrow> n))))"

text \<open>The strings a regular expression can match.\<close>

fun lang :: "regex \<Rightarrow> string set" where
  "lang (Cls k) = {[c] | c. in_class k c}"
| "lang (Lit l) = {l}"
| "lang (LitI l) = {m. lower m = lower l}"
| "lang (Seq a b) = {m @ n | m n. m \<in> lang a \<and> n \<in> lang b}"
| "lang (Alt a b) = lang a \<union> lang b"
| "lang (Opt a) = insert [] (lang a)"
| "lang (Many1 k) = {m. m \<noteq> [] \<and> (\<forall>c \<in> set m. in_class k c)}"

text \<open>A time directive in a format.\<close>

definition has_time_directive :: "fitem list \<Rightarrow> bool" where
  "has_time_directive fmt = (Dir DH \<in> set fmt \<or> Dir DI \<in> set fmt \<or> Dir DM \<in> set fmt)"

text \<open>The date the extractor finds in the title and the notes of a record.\<close>

definition extracted_due :: "task \<Rightarrow> datetime option" where
  "extracted_due item =
     (case extract_date_time (title_notes item) of Inr (d, _) \<Rightarrow> d | Inl _ \<Rightarrow> None)"

text \<open>The three kinds of third key component: no timestamp, a naive one, an aware one.\<close>

datatype due_kind = Missing | Naive | Aware

definition kind_of :: "datetime option \<Rightarrow> due_kind" where
  "kind_of d = (case d of None \<Rightarrow> Missing | Some x \<Rightarrow> if tzinfo x = None then Naive else Aware)"

text \<open>Two keys can be compared when an earlier component decides or the timestamps
  are of one kind; then the comparison is the one of the flags and the instants.\<close>

fun comparable :: "sortkey \<Rightarrow> sortkey \<Rightarrow> bool" where
  "comparable (c1, p1, d1) (c2, p2, d2) = (c1 \<noteq> c2 \<or> p1 \<noteq> p2 \<or> kind_of d1 = kind_of d2)"

fun rank :: "sortkey \<Rightarrow> bool \<times> bool \<times> int" where
  "rank (c, p, d) = (c, p, case d of None \<Rightarrow> 0 | Some x \<Rightarrow> instant x)"

text \<open>The priority flag and the effective due date of a record, as the sort key has them.\<close>

definition is_priority :: "task \<Rightarrow> bool" where
  "is_priority t = is_priority_task (get_or t ''title'' []) (t ''notes'')"

definition effective_due :: "parser \<Rightarrow> task \<Rightarrow> datetime option" where
  "effective_due parse_datetime t =
     (case get_due_date parse_datetime t of Inr d \<Rightarrow> d | Inl _ \<Rightarrow> None)"

text \<open>The computation of the effective due date returns: the \<^verbatim>\<open>due\<close> field is
  absent or empty, or its parsing does not raise.\<close>

definition due_parses :: "parser \<Rightarrow> task \<Rightarrow> bool" where
  "due_parses parse_datetime t =
     (case get_due_date parse_datetime t of Inr _ \<Rightarrow> True | Inl _ \<Rightarrow> False)"

text \<open>The key of a task whose key function returns.\<close>

definition key_of :: "parser \<Rightarrow> task \<Rightarrow> sortkey" where
  "key_of parse_datetime t = (case sort_key_task parse_datetime t of Inr k \<Rightarrow> k | Inl _ \<Rightarrow> (False, False, None))"

abbreviation rank_of :: "parser \<Rightarrow> task \<Rightarrow> bool \<times> bool \<times> int" where
  "rank_of parse_datetime \<equiv> (\<lambda>t. rank (key_of parse_datetime t))"

text \<open>\<open>b\<close> is not less than \<open>a\<close>; \<open>a\<close> and \<open>b\<close> are tied when neither is less
  than the other.\<close>

definition key_le :: "parser \<Rightarrow> task \<Rightarrow> task \<Rightarrow> bool" where
  "key_le parse_datetime a b =
     (case (sort_key_task parse_datetime a, sort_key_task parse_datetime b) of
        (Inr ka, Inr kb) \<Rightarrow> key_lt kb ka = Inr False
      | _ \<Rightarrow> False)"

definition tied :: "parser \<Rightarrow> task \<Rightarrow> task \<Rightarrow> bool" where
  "tied parse_datetime a b = (key_le parse_datetime a b \<and> key_le parse_datetime b a)"

text \<open>\<^verbatim>\<open>order(order(tasks))\<close>: the inner call's exception ends the outer one.\<close>

definition order_twice :: "parser \<Rightarrow> task list \<Rightarrow> exn + task list" where
  "order_twice parse_datetime tasks =
     (case order_tasks parse_datetime tasks of
        Inl e \<Rightarrow> Inl e
      | Inr ordered \<Rightarrow> order_tasks parse_datetime ordered)"

abbreviation rk :: "sortkey \<times> 'a \<Rightarrow> bool \<times> bool \<times> int" where
  "rk \<equiv> (\<lambda>x. rank (fst x))"

subsection \<open>Sample records\<close>

text \<open>Records of the kind the module's tests use.\<close>

definition task_groceries :: task where
  "task_groceries = [''id'' \<mapsto> ''123'', ''title'' \<mapsto> ''Buy groceries'',
                     ''status'' \<mapsto> ''needsAction'', ''due'' \<mapsto> ''2024-11-28T10:00:00Z'',
                     ''notes'' \<mapsto> ''Milk, eggs, bread'']"

definition task_no_due :: task where
  "task_no_due = [''id'' \<mapsto> ''124'', ''title'' \<mapsto> ''Task without due date'',
                  ''status'' \<mapsto> ''needsAction'']"

definition task_regular :: task where
  "task_regular = [''id'' \<mapsto> ''1'', ''title'' \<mapsto> ''Regular task'', ''position'' \<mapsto> ''1'']"

definition task_urgent :: task where
  "task_urgent = [''id'' \<mapsto> ''2'', ''title'' \<mapsto> ''Urgent meeting'', ''position'' \<mapsto> ''2'']"

definition task_another :: task where
  "task_another = [''id'' \<mapsto> ''3'', ''title'' \<mapsto> ''Another task'', ''position'' \<mapsto> ''3'']"

definition task_done :: task where
  "task_done = [''id'' \<mapsto> ''4'', ''title'' \<mapsto> ''Pay rent'', ''status'' \<mapsto> ''completed'']"

definition task_bad_due :: task where
  "task_bad_due = [''id'' \<mapsto> ''7'', ''title'' \<mapsto> ''Meeting on 27 Nov 2024 at 18:00'',
                   ''status'' \<mapsto> ''needsAction'', ''due'' \<mapsto> ''next week'']"

definition task_invalid_due :: task where
  "task_invalid_due = [''id'' \<mapsto> ''9'', ''title'' \<mapsto> ''Call the bank'',
                       ''status'' \<mapsto> ''needsAction'', ''due'' \<mapsto> ''2024-13-01T10:00:00Z'']"

definition task_untitled_invalid_due :: task where
  "task_untitled_invalid_due = [''id'' \<mapsto> ''10'', ''due'' \<mapsto> ''2024-13-01T10:00:00Z'']"

definition task_untitled :: task where
  "task_untitled = [''id'' \<mapsto> ''8'', ''status'' \<mapsto> ''needsAction'']"

text \<open>A local item whose due timestamp is already in UTC, and one with a naive due
  timestamp.\<close>

definition item_due_utc :: TodoItem where
  "item_due_utc =
     \<lparr>summary = ''Pay rent'', uid = None, status = Some NEEDS_ACTION,
      due = Some \<lparr>year = 2024, month = 11, day = 27, hour = 18, minute = 0, second = 0,
                  microsecond = 0, tzinfo = Some 0\<rparr>,
      description = None\<rparr>"

definition item_due_naive :: TodoItem where
  "item_due_naive =
     \<lparr>summary = ''Pay rent'', uid = None, status = Some NEEDS_ACTION,
      due = Some (mk_datetime 2024 11 27 18 0), description = None\<rparr>"

section \<open>Auxiliary facts\<close>

subsection \<open>Strings and the two try blocks\<close>

lemma startswith_prefix: "startswith s p = prefix p s"
  unfolding startswith_def
  by (metis prefix_def append_eq_conv_conj take_is_prefix)

lemma contains_sublist: "contains s p = sublist p s"
  by (induction s) (simp_all add: startswith_prefix sublist_Cons_right)

lemma strptime_error: "strptime s f = Inl e \<Longrightarrow> e = ValueError"
  unfolding strptime_def Let_def
  by (auto split: list.splits if_splits prod.splits)

lemma find_date_no_error: "find_date ps text \<noteq> Inl e"
proof (induction ps)
  case Nil
  show ?case by simp
next
  case (Cons a ps)
  obtain p f where a: "a = (p, f)" by (cases a)
  show ?case
    using Cons.IH strptime_error
    by (auto simp: a split: option.splits sum.splits exn.splits)
qed

lemma apply_time_error: "apply_time d t = Inl e \<Longrightarrow> e = ValueError"
  unfolding apply_time_def replace_hm_def
  by (auto split: sum.splits if_splits dest: strptime_error)

lemma extract_date_time_returns:
  "\<exists>date. extract_date_time text = Inr (date, re_search TIME_PATTERN text)"
proof -
  obtain ed where ed: "find_date DATE_PATTERNS text = Inr ed"
    using find_date_no_error by (cases "find_date DATE_PATTERNS text") auto
  show ?thesis
    unfolding extract_date_time_def ed Let_def
    by (auto split: option.splits sum.splits exn.splits dest: apply_time_error)
qed

subsection \<open>The stable sort on comparable keys\<close>

lemma key_lt_rank:
  "key_lt k1 k2 = (if comparable k1 k2 then Inr (rank k1 < rank k2) else Inl TypeError)"
proof -
  obtain c1 p1 d1 where k1: "k1 = (c1, p1, d1)" by (cases k1)
  obtain c2 p2 d2 where k2: "k2 = (c2, p2, d2)" by (cases k2)
  show ?thesis
    unfolding k1 k2
    by (auto simp: due_eq_def due_lt_def kind_of_def split: option.splits if_splits)
qed

lemma comparable_refl: "comparable k k"
  by (cases k) simp

lemma comparable_sym: "comparable k1 k2 \<Longrightarrow> comparable k2 k1"
  by (cases k1; cases k2) auto

lemma comparable_between:
  assumes "comparable x y" "comparable y z" "rank x \<le> rank y" "rank y \<le> rank z"
  shows "comparable x z"
proof -
  obtain c1 p1 d1 where x: "x = (c1, p1, d1)" by (cases x)
  obtain c2 p2 d2 where y: "y = (c2, p2, d2)" by (cases y)
  obtain c3 p3 d3 where z: "z = (c3, p3, d3)" by (cases z)
  show ?thesis
    using assms unfolding x y z
    by (auto simp: less_eq_prod_def)
qed



lemma insert_sorted_insort:
  "insert_sorted x ys = Inr zs \<Longrightarrow> zs = insort_key rk x ys"
proof (induction ys arbitrary: zs)
  case Nil
  then show ?case by simp
next
  case (Cons y ys)
  show ?case
  proof (cases "comparable (fst y) (fst x)")
    case False
    with Cons.prems show ?thesis by (simp add: key_lt_rank)
  next
    case True
    show ?thesis
    proof (cases "rank (fst y) < rank (fst x)")
      case True
      with \<open>comparable (fst y) (fst x)\<close> Cons.prems
      obtain zs' where "insert_sorted x ys = Inr zs'" "zs = y # zs'"
        by (auto simp: key_lt_rank split: sum.splits)
      moreover from True have "\<not> rk x \<le> rk y" by (simp add: not_le)
      ultimately show ?thesis using Cons.IH by simp
    next
      case False
      with \<open>comparable (fst y) (fst x)\<close> Cons.prems show ?thesis
        by (simp add: key_lt_rank not_less)
    qed
  qed
qed

lemma sort_pairs_sort:
  "sort_pairs xs = Inr ys \<Longrightarrow> ys = sort_key rk xs"
proof (induction xs arbitrary: ys)
  case Nil
  then show ?case by simp
next
  case (Cons x xs)
  then obtain ys' where a: "sort_pairs xs = Inr ys'" and b: "insert_sorted x ys' = Inr ys"
    by (auto split: sum.splits)
  from Cons.IH [OF a] insert_sorted_insort [OF b] show ?case by simp
qed

lemma insert_sorted_comparable:
  assumes "insert_sorted x ys = Inr zs"
    and "sorted (map rk ys)"
    and "\<forall>a \<in> set ys. \<forall>b \<in> set ys. comparable (fst a) (fst b)"
  shows "\<forall>y \<in> set ys. comparable (fst x) (fst y)"
  using assms
proof (induction ys arbitrary: zs)
  case Nil
  then show ?case by simp
next
  case (Cons y ys)
  have cyx: "comparable (fst y) (fst x)"
    using Cons.prems(1) by (auto simp: key_lt_rank split: if_splits)
  show ?case
  proof (cases "rank (fst y) < rank (fst x)")
    case True
    with cyx Cons.prems(1) obtain zs' where "insert_sorted x ys = Inr zs'"
      by (auto simp: key_lt_rank split: sum.splits)
    with Cons.IH Cons.prems(2,3) have "\<forall>y \<in> set ys. comparable (fst x) (fst y)"
      by simp
    with cyx show ?thesis by (simp add: comparable_sym)
  next
    case False
    then have xy: "rank (fst x) \<le> rank (fst y)" by simp
    have "comparable (fst x) (fst z)" if "z \<in> set ys" for z
    proof -
      have "rank (fst y) \<le> rank (fst z)" using Cons.prems(2) that by auto
      moreover have "comparable (fst y) (fst z)" using Cons.prems(3) that by simp
      ultimately show ?thesis
        using comparable_between [OF comparable_sym [OF cyx] _ xy] by blast
    qed
    with cyx show ?thesis by (auto simp: comparable_sym)
  qed
qed

lemma sort_pairs_comparable:
  "sort_pairs xs = Inr ys \<Longrightarrow> \<forall>a \<in> set xs. \<forall>b \<in> set xs. comparable (fst a) (fst b)"
proof (induction xs arbitrary: ys)
  case Nil
  then show ?case by simp
next
  case (Cons x xs)
  then obtain ys' where a: "sort_pairs xs = Inr ys'" and b: "insert_sorted x ys' = Inr ys"
    by (auto split: sum.splits)
  have ys': "ys' = sort_key rk xs" by (rule sort_pairs_sort [OF a])
  have ih: "\<forall>a \<in> set xs. \<forall>b \<in> set xs. comparable (fst a) (fst b)" by (rule Cons.IH [OF a])
  have "\<forall>y \<in> set ys'. comparable (fst x) (fst y)"
    by (rule insert_sorted_comparable [OF b]) (simp_all add: ys' ih)
  then have "\<forall>y \<in> set xs. comparable (fst x) (fst y)" by (simp add: ys')
  with ih show ?case by (auto simp: comparable_refl comparable_sym)
qed

lemma insert_sorted_succeeds:
  "\<forall>y \<in> set ys. comparable (fst y) (fst x) \<Longrightarrow> insert_sorted x ys = Inr (insort_key rk x ys)"
proof (induction ys)
  case Nil
  show ?case by simp
next
  case (Cons y ys)
  then have ih: "insert_sorted x ys = Inr (insort_key rk x ys)" by simp
  have c: "comparable (fst y) (fst x)" using Cons.prems by simp
  show ?case
  proof (cases "rk y < rk x")
    case True
    then have "\<not> rk x \<le> rk y" by (simp add: not_le)
    with True c ih show ?thesis by (simp add: key_lt_rank)
  next
    case False
    then have "rk x \<le> rk y" by (simp add: not_less)
    with False c show ?thesis by (simp add: key_lt_rank)
  qed
qed

lemma sort_pairs_succeeds:
  "\<forall>a \<in> set xs. \<forall>b \<in> set xs. comparable (fst a) (fst b) \<Longrightarrow> sort_pairs xs = Inr (sort_key rk xs)"
proof (induction xs)
  case Nil
  show ?case by simp
next
  case (Cons x xs)
  then have "sort_pairs xs = Inr (sort_key rk xs)" by simp
  moreover have "insert_sorted x (sort_key rk xs) = Inr (insort_key rk x (sort_key rk xs))"
    by (rule insert_sorted_succeeds) (use Cons.prems in simp)
  ultimately show ?case by simp
qed


lemma with_keys_Inr:
  assumes "with_keys f xs = Inr ks" and "\<And>x k. f x = Inr k \<Longrightarrow> K x = k"
  shows "ks = map (\<lambda>x. (K x, x)) xs \<and> (\<forall>x \<in> set xs. f x = Inr (K x))"
  using assms(1)
proof (induction xs arbitrary: ks)
  case Nil
  then show ?case by simp
next
  case (Cons x xs)
  then obtain k ks' where a: "f x = Inr k" and b: "with_keys f xs = Inr ks'" and c: "ks = (k, x) # ks'"
    by (auto split: sum.splits)
  from Cons.IH [OF b] a c assms(2) [OF a] show ?case by simp
qed

lemma with_keys_succeeds:
  "\<forall>x \<in> set xs. f x = Inr (K x) \<Longrightarrow> with_keys f xs = Inr (map (\<lambda>x. (K x, x)) xs)"
  by (induction xs) simp_all

lemma insort_key_paired:
  "insort_key rk (K x, x) (map (\<lambda>x. (K x, x)) zs)
   = map (\<lambda>x. (K x, x)) (insort_key (\<lambda>x. rank (K x)) x zs)"
  by (induction zs) simp_all

lemma sort_key_paired:
  "sort_key rk (map (\<lambda>x. (K x, x)) xs) = map (\<lambda>x. (K x, x)) (sort_key (\<lambda>x. rank (K x)) xs)"
  by (induction xs) (simp_all add: insort_key_paired)

lemma sorted_py_Inr:
  assumes "sorted_py f xs = Inr ys" and K: "\<And>x k. f x = Inr k \<Longrightarrow> K x = k"
  shows "ys = sort_key (\<lambda>x. rank (K x)) xs"
    and "\<forall>x \<in> set xs. f x = Inr (K x)"
    and "\<forall>a \<in> set xs. \<forall>b \<in> set xs. comparable (K a) (K b)"
proof -
  from assms(1) obtain ks zs where a: "with_keys f xs = Inr ks" and b: "sort_pairs ks = Inr zs"
    and c: "ys = map snd zs"
    by (auto simp: sorted_py_def split: sum.splits)
  from with_keys_Inr [OF a K] have ks: "ks = map (\<lambda>x. (K x, x)) xs"
    and fx: "\<forall>x \<in> set xs. f x = Inr (K x)" by simp_all
  from sort_pairs_sort [OF b] have "zs = sort_key rk ks" .
  then show "ys = sort_key (\<lambda>x. rank (K x)) xs"
    by (simp add: c ks sort_key_paired comp_def)
  show "\<forall>x \<in> set xs. f x = Inr (K x)" by (rule fx)
  from sort_pairs_comparable [OF b] show "\<forall>a \<in> set xs. \<forall>b \<in> set xs. comparable (K a) (K b)"
    by (simp add: ks)
qed

lemma sorted_py_succeeds:
  assumes "\<forall>x \<in> set xs. f x = Inr (K x)"
    and "\<forall>a \<in> set xs. \<forall>b \<in> set xs. comparable (K a) (K b)"
  shows "sorted_py f xs = Inr (sort_key (\<lambda>x. rank (K x)) xs)"
proof -
  have a: "with_keys f xs = Inr (map (\<lambda>x. (K x, x)) xs)"
    by (rule with_keys_succeeds [OF assms(1)])
  have b: "sort_pairs (map (\<lambda>x. (K x, x)) xs) = Inr (sort_key rk (map (\<lambda>x. (K x, x)) xs))"
    by (rule sort_pairs_succeeds) (use assms(2) in simp)
  show ?thesis
    by (simp add: sorted_py_def a b sort_key_paired comp_def)
qed

subsection \<open>Groups of a format, and the date loop\<close>

lemma match_items_groups:
  "(caps, rest) \<in> set (match_items fmt s) \<Longrightarrow> c \<in> fst ` set caps \<Longrightarrow> Dir c \<in> set fmt"
proof (induction fmt arbitrary: caps rest s)
  case Nil
  then show ?case by simp
next
  case (Cons a fmt)
  show ?case
  proof (cases a)
    case (Dir x)
    with Cons.prems(1) obtain r caps' where "(caps', rest) \<in> set (match_items fmt r)"
      and "caps = (x, take (length s - length r) s) # caps'"
      by auto
    with Cons.IH Cons.prems(2) Dir show ?thesis by auto
  next
    case Ws
    with Cons.prems(1) obtain r where "(caps, rest) \<in> set (match_items fmt r)" by auto
    with Cons.IH Cons.prems(2) show ?thesis by auto
  next
    case (Ch x)
    with Cons.prems(1) obtain r where "(caps, rest) \<in> set (match_items fmt r)"
      by (auto split: if_splits)
    with Cons.IH Cons.prems(2) show ?thesis by auto
  qed
qed

lemma map_of_absent: "c \<notin> fst ` set caps \<Longrightarrow> map_of caps c = None"
  by (simp add: map_of_eq_None_iff)

lemma strptime_naive: "strptime s fmt = Inr d \<Longrightarrow> tzinfo d = None \<and> second d = 0 \<and> microsecond d = 0"
  unfolding strptime_def Let_def mk_datetime_def
  by (auto split: list.splits if_splits prod.splits)

lemma strptime_midnight:
  assumes "strptime s fmt = Inr d" and "\<not> has_time_directive fmt"
  shows "hour d = 0 \<and> minute d = 0"
proof -
  from assms(1) obtain caps rest ms where m: "match_items fmt s = (caps, rest) # ms"
    and d: "d = mk_datetime (group_nat caps DY 1900) (field_month caps) (group_nat caps Dd 1)
                 (field_hour caps) (group_nat caps DM 0)"
    unfolding strptime_def Let_def
    by (auto split: list.splits if_splits prod.splits)
  have mem: "(caps, rest) \<in> set (match_items fmt s)" by (simp add: m)
  have "map_of caps DH = None" "map_of caps DI = None" "map_of caps DM = None"
    using match_items_groups [OF mem] assms(2)
    by (auto simp: has_time_directive_def intro!: map_of_absent)
  then show ?thesis
    by (simp add: d mk_datetime_def field_hour_def group_nat_def)
qed

lemma find_date_step:
  "find_date ((p, f) # ps) txt =
     (case re_search p txt of
        None \<Rightarrow> find_date ps txt
      | Some m \<Rightarrow> (case strptime m f of Inr d \<Rightarrow> Inr (Some d) | Inl _ \<Rightarrow> find_date ps txt))"
proof (cases "re_search p txt")
  case None
  then show ?thesis by simp
next
  case (Some m)
  show ?thesis
  proof (cases "strptime m f")
    case (Inl e)
    then have "e = ValueError" by (rule strptime_error)
    with Inl Some show ?thesis by simp
  next
    case (Inr d)
    with Some show ?thesis by simp
  qed
qed

lemma find_date_Some:
  "find_date ps txt = Inr (Some d) \<Longrightarrow>
   \<exists>p f m. (p, f) \<in> set ps \<and> re_search p txt = Some m \<and> strptime m f = Inr d"
proof (induction ps)
  case Nil
  then show ?case by simp
next
  case (Cons a ps)
  obtain p f where a: "a = (p, f)" by (cases a)
  show ?case
  proof (cases "re_search p txt")
    case None
    with Cons.prems have "find_date ps txt = Inr (Some d)" unfolding a find_date_step by simp
    from Cons.IH [OF this] show ?thesis by auto
  next
    case (Some m)
    show ?thesis
    proof (cases "strptime m f")
      case (Inl e)
      with Some Cons.prems have "find_date ps txt = Inr (Some d)" unfolding a find_date_step by simp
      from Cons.IH [OF this] show ?thesis by auto
    next
      case (Inr d')
      with Some Cons.prems have "d' = d" unfolding a find_date_step by simp
      with Inr Some show ?thesis unfolding a by (intro exI [of _ p] exI [of _ f] exI [of _ m]) simp
    qed
  qed
qed

lemma find_date_None:
  "(\<And>p f m. (p, f) \<in> set ps \<Longrightarrow> re_search p txt = Some m \<Longrightarrow> strptime m f = Inl ValueError)
   \<Longrightarrow> find_date ps txt = Inr None"
proof (induction ps)
  case Nil
  show ?case by simp
next
  case (Cons a ps)
  obtain p f where a: "a = (p, f)" by (cases a)
  have ih: "find_date ps txt = Inr None"
    by (rule Cons.IH) (rule Cons.prems, simp_all)
  show ?case
  proof (cases "re_search p txt")
    case None
    with ih show ?thesis unfolding a find_date_step by simp
  next
    case (Some m)
    have "strptime m f = Inl ValueError" by (rule Cons.prems [OF _ Some]) (simp add: a)
    with Some ih show ?thesis unfolding a find_date_step by simp
  qed
qed


lemma date_patterns_no_time: "(p, f) \<in> set DATE_PATTERNS \<Longrightarrow> \<not> has_time_directive f"
  unfolding DATE_PATTERNS_def has_time_directive_def
  by (auto simp: fmt_Ymd_def fmt_dmY_def fmt_mdY_def
      fmt_d_b_Y_def fmt_b_d_Y_def fmt_Y_b_d_def fmt_Y_d_b_def)

lemma find_date_midnight:
  assumes "find_date DATE_PATTERNS txt = Inr (Some d)"
  shows "hour d = 0 \<and> minute d = 0 \<and> tzinfo d = None"
proof -
  from find_date_Some [OF assms] obtain p f m where pf: "(p, f) \<in> set DATE_PATTERNS"
    and s: "strptime m f = Inr d" by blast
  from pf have "\<not> has_time_directive f" by (rule date_patterns_no_time)
  with s strptime_midnight strptime_naive show ?thesis by blast
qed

lemma apply_time_naive: "apply_time d t = Inr d' \<Longrightarrow> tzinfo d' = tzinfo d"
  unfolding apply_time_def replace_hm_def
  by (auto split: sum.splits if_splits)

lemma extract_date_time_cases:
  "extract_date_time txt =
     (case find_date DATE_PATTERNS txt of
        Inr (Some d) \<Rightarrow>
          (case re_search TIME_PATTERN txt of
             Some t \<Rightarrow>
               (if t = [] then Inr (Some d, Some t)
                else case apply_time d t of
                       Inr d' \<Rightarrow> Inr (Some d', Some t)
                     | Inl _ \<Rightarrow> Inr (Some d, Some t))
           | None \<Rightarrow> Inr (Some d, None))
      | _ \<Rightarrow> Inr (None, re_search TIME_PATTERN txt))"
proof (cases "find_date DATE_PATTERNS txt")
  case (Inl e)
  with find_date_no_error show ?thesis by blast
next
  case (Inr ed)
  show ?thesis
  proof (cases ed)
    case None
    with Inr show ?thesis by (simp add: extract_date_time_def split: option.splits)
  next
    case (Some d)
    show ?thesis
    proof (cases "re_search TIME_PATTERN txt")
      case None
      with Inr Some show ?thesis by (simp add: extract_date_time_def)
    next
      case t: (Some t)
      show ?thesis
      proof (cases "apply_time d t")
        case (Inl e)
        then have "e = ValueError" by (rule apply_time_error)
        with Inl Inr Some t show ?thesis by (simp add: extract_date_time_def)
      next
        case r: (Inr d')
        with Inr Some t show ?thesis by (simp add: extract_date_time_def)
      qed
    qed
  qed
qed

lemma extract_date_time_naive:
  assumes "extract_date_time txt = Inr (Some d, t)"
  shows "tzinfo d = None"
proof -
  from assms obtain d0 where d0: "find_date DATE_PATTERNS txt = Inr (Some d0)"
    unfolding extract_date_time_cases by (auto split: sum.splits option.splits)
  then have n0: "tzinfo d0 = None" by (simp add: find_date_midnight)
  from assms d0 have "d = d0 \<or> (\<exists>t'. apply_time d0 t' = Inr d)"
    unfolding extract_date_time_cases by (auto split: sum.splits option.splits if_splits)
  with n0 apply_time_naive show ?thesis by auto
qed

subsection \<open>What the regular expressions match\<close>

lemma rmatch_sound:
  "rest \<in> set (rmatch r s) \<Longrightarrow> \<exists>m. s = m @ rest \<and> m \<in> lang r"
proof (induction r arbitrary: s rest)
  case (Cls k)
  then show ?case by (auto split: list.splits if_splits)
next
  case (Lit l)
  then have "take (length l) s = l" and "rest = drop (length l) s"
    by (auto simp: startswith_def split: if_splits)
  then have "s = l @ rest" by (metis append_take_drop_id)
  then show ?case by simp
next
  case (LitI l)
  then have "lower (take (length l) s) = lower l" and "rest = drop (length l) s"
    by (auto split: if_splits)
  moreover have "s = take (length l) s @ drop (length l) s" by simp
  ultimately show ?case by (metis lang.simps(3) mem_Collect_eq)
next
  case (Seq a b)
  then obtain mid where 1: "mid \<in> set (rmatch a s)" and 2: "rest \<in> set (rmatch b mid)"
    by auto
  from Seq.IH(1) [OF 1] obtain m where m: "s = m @ mid" "m \<in> lang a" by blast
  from Seq.IH(2) [OF 2] obtain n where n: "mid = n @ rest" "n \<in> lang b" by blast
  have "s = (m @ n) @ rest" using m n by simp
  moreover have "m @ n \<in> lang (Seq a b)" using m n by auto
  ultimately show ?case by blast
next
  case (Alt a b)
  then have "rest \<in> set (rmatch a s) \<or> rest \<in> set (rmatch b s)" by simp
  then show ?case using Alt.IH by fastforce
next
  case (Opt a)
  then have "rest \<in> set (rmatch a s) \<or> rest = s" by auto
  then show ?case using Opt.IH by fastforce
next
  case (Many1 k)
  then obtain i where i: "1 \<le> i" "i \<le> length (takeWhile (in_class k) s)" "rest = drop i s"
    by auto
  have a: "s = take i s @ rest" using i by simp
  have "take i s = take i (takeWhile (in_class k) s)"
    using i(2) by (metis takeWhile_eq_take take_take min.absorb1 length_takeWhile_le min.absorb_iff1 min.commute)
  then have b: "\<forall>c \<in> set (take i s). in_class k c"
    by (metis in_set_takeD set_takeWhileD)
  have c: "take i s \<noteq> []" using i by (cases s) auto
  from b c have "take i s \<in> lang (Many1 k)" by simp
  with a show ?case by blast
qed

lemma re_match_sound: "re_match r s = Some m \<Longrightarrow> m \<in> lang r \<and> prefix m s"
proof -
  assume a: "re_match r s = Some m"
  then obtain rest rs where r: "rmatch r s = rest # rs" and m: "m = take (length s - length rest) s"
    by (auto simp: re_match_def split: list.splits)
  then have "rest \<in> set (rmatch r s)" by simp
  from rmatch_sound [OF this] obtain m' where m': "s = m' @ rest" "m' \<in> lang r" by blast
  then have "m = m'" using m by simp
  with m' show ?thesis by auto
qed

lemma re_search_sound: "re_search r s = Some m \<Longrightarrow> m \<in> lang r \<and> sublist m s"
proof (induction s)
  case Nil
  then show ?case using re_match_sound [of r "[]" m] by auto
next
  case (Cons c s)
  show ?case
  proof (cases "re_match r (c # s)")
    case None
    with Cons show ?thesis by (auto simp: sublist_Cons_right)
  next
    case (Some m')
    with Cons.prems have "m' = m" by simp
    with Some re_match_sound [of r "c # s" m] show ?thesis by auto
  qed
qed

lemma lang_SeqD: "t \<in> lang (Seq a b) \<Longrightarrow> \<exists>m n. t = m @ n \<and> m \<in> lang a \<and> n \<in> lang b"
  by auto

lemma lang_digit: "h \<in> lang re_d \<Longrightarrow> length h = 1 \<and> list_all is_digit h"
  by auto

lemma lang_d12: "h \<in> lang re_d12 \<Longrightarrow> h \<noteq> [] \<and> length h \<le> 2 \<and> list_all is_digit h"
  by auto

lemma lang_d2: "m \<in> lang re_d2 \<Longrightarrow> length m = 2 \<and> list_all is_digit m"
  by auto

lemma lang_ampm:
  "suf \<in> lang (Opt (Seq (Opt re_s) (Seq (re_set ''AP'') (Lit ''M'')))) \<Longrightarrow>
   suf = [] \<or> (\<exists>w x. suf = w @ [x, CHR ''M''] \<and> x \<in> set ''AP'' \<and> length w \<le> 1 \<and> list_all is_space w)"
  by auto

lemma lang_TIME_PATTERN:
  assumes "t \<in> lang TIME_PATTERN"
  shows "\<exists>h m suf. t = h @ '':'' @ m @ suf
           \<and> h \<noteq> [] \<and> length h \<le> 2 \<and> list_all is_digit h
           \<and> length m = 2 \<and> list_all is_digit m
           \<and> (suf = [] \<or> (\<exists>w x. suf = w @ [x, CHR ''M''] \<and> x \<in> set ''AP''
                              \<and> length w \<le> 1 \<and> list_all is_space w))"
proof -
  let ?X = "Opt (Seq (Opt re_s) (Seq (re_set ''AP'') (Lit ''M'')))"
  have T: "TIME_PATTERN = Seq re_d12 (Seq (Lit '':'') (Seq re_d2 ?X))"
    by (simp add: TIME_PATTERN_def)
  from assms lang_SeqD [of t re_d12 "Seq (Lit '':'') (Seq re_d2 ?X)"]
  obtain h r1 where 1: "t = h @ r1" "h \<in> lang re_d12" "r1 \<in> lang (Seq (Lit '':'') (Seq re_d2 ?X))"
    unfolding T by blast
  from lang_SeqD [OF 1(3)] obtain c r2 where 2: "r1 = c @ r2" "c \<in> lang (Lit '':'')"
    "r2 \<in> lang (Seq re_d2 ?X)" by blast
  from lang_SeqD [OF 2(3)] obtain m suf where 3: "r2 = m @ suf" "m \<in> lang re_d2" "suf \<in> lang ?X"
    by blast
  from 2(2) have c: "c = '':''" by simp
  have "t = h @ '':'' @ m @ suf" using 1(1) 2(1) 3(1) c by simp
  with lang_d12 [OF 1(2)] lang_d2 [OF 3(2)] lang_ampm [OF 3(3)] show ?thesis by blast
qed

lemma TIME_PATTERN_chars:
  assumes "t \<in> lang TIME_PATTERN" and "c \<in> set t"
  shows "is_digit c \<or> is_space c \<or> c \<in> set '':APM''"
proof -
  from lang_TIME_PATTERN [OF assms(1)] obtain h m suf where t: "t = h @ '':'' @ m @ suf"
    and h: "list_all is_digit h" and m: "list_all is_digit m"
    and suf: "suf = [] \<or> (\<exists>w x. suf = w @ [x, CHR ''M''] \<and> x \<in> set ''AP''
                              \<and> length w \<le> 1 \<and> list_all is_space w)" by blast
  from assms(2) t have "c \<in> set h \<or> c = CHR '':'' \<or> c \<in> set m \<or> c \<in> set suf" by auto
  then show ?thesis
  proof (elim disjE)
    assume "c \<in> set h" with h show ?thesis by (simp add: list_all_iff)
  next
    assume "c = CHR '':''" then show ?thesis by simp
  next
    assume "c \<in> set m" with m show ?thesis by (simp add: list_all_iff)
  next
    assume cs: "c \<in> set suf"
    with suf obtain w x where "suf = w @ [x, CHR ''M'']" "x \<in> set ''AP''" "list_all is_space w"
      by auto
    with cs show ?thesis by (auto simp: list_all_iff)
  qed
qed

lemma lowercase_not_time_char:
  "c \<in> set ''abcdefghijklmnopqrstuvwxyz'' \<Longrightarrow> \<not> (is_digit c \<or> is_space c \<or> c \<in> set '':APM'')"
  by (auto simp: is_digit_def is_space_def)

subsection \<open>The conversion and the effective due date by cases\<close>

lemma convert_api_item_cases:
  "convert_api_item parse_datetime item =
     (case (case item ''due'' of
              Some due_str \<Rightarrow> parse_datetime due_str
            | None \<Rightarrow> Inr (extracted_due item)) of
        Inl e \<Rightarrow> Inl e
      | Inr due_v \<Rightarrow>
          (case item ''title'' of
             None \<Rightarrow> Inl (KeyError ''title'')
           | Some title \<Rightarrow>
               (case item ''id'' of
                  None \<Rightarrow> Inl (KeyError ''id'')
                | Some ident \<Rightarrow>
                    Inr \<lparr>summary = title, uid = Some ident,
                         status = Some (get_or TODO_STATUS_MAP (get_or item ''status'' []) NEEDS_ACTION),
                         due = due_v, description = item ''notes''\<rparr>)))"
proof -
  obtain date where e: "extract_date_time (title_notes item) = Inr (date, re_search TIME_PATTERN (title_notes item))"
    using extract_date_time_returns by blast
  show ?thesis
    unfolding convert_api_item_def subscript_def extracted_due_def e
    by (simp split: option.splits sum.splits)
qed

lemma get_due_date_cases:
  "get_due_date parse_datetime task =
     (case task ''due'' of
        Some (c # cs) \<Rightarrow> parse_datetime (c # cs)
      | _ \<Rightarrow> Inr (Some (case extracted_due task of None \<Rightarrow> datetime_max | Some d \<Rightarrow> d)))"
proof -
  obtain date where e: "extract_date_time (title_notes task) = Inr (date, re_search TIME_PATTERN (title_notes task))"
    using extract_date_time_returns by blast
  show ?thesis
    unfolding get_due_date_def extracted_due_def e
    by (simp split: option.splits list.splits)
qed

lemma get_due_date_present:
  "task ''due'' = Some s \<Longrightarrow> s \<noteq> [] \<Longrightarrow> get_due_date parse_datetime task = parse_datetime s"
  unfolding get_due_date_cases by (cases s) simp_all

lemma get_due_date_absent:
  "task ''due'' = None \<or> task ''due'' = Some [] \<Longrightarrow>
   get_due_date parse_datetime task
   = Inr (Some (case extracted_due task of None \<Rightarrow> datetime_max | Some d \<Rightarrow> d))"
  unfolding get_due_date_cases by auto

lemma convert_todo_item_due:
  assumes "due item = Some d" and "as_utc d = Inr u"
  shows "\<exists>res. convert_todo_item as_utc item = Inr res \<and> res ''due'' = Some (format_due_datetime u)"
  using assms unfolding convert_todo_item_def Let_def
  by (auto split: option.splits list.splits)

subsection \<open>When the ordering returns and when it raises\<close>

lemma sort_key_task_cases:
  "sort_key_task parse_datetime t =
     (case t ''title'' of
        None \<Rightarrow> Inl (KeyError ''title'')
      | Some title \<Rightarrow>
          (case get_due_date parse_datetime t of
             Inl e \<Rightarrow> Inl e
           | Inr d \<Rightarrow> Inr (is_completed t, \<not> is_priority t, d)))"
  unfolding sort_key_task_def subscript_def is_priority_def
  by (auto simp add: get_or_def split: option.splits sum.splits)

lemma key_of_eq: "sort_key_task parse_datetime t = Inr k \<Longrightarrow> key_of parse_datetime t = k"
  by (simp add: key_of_def)

lemma key_of_titled:
  "t ''title'' \<noteq> None \<and> due_parses parse_datetime t \<Longrightarrow>
   sort_key_task parse_datetime t = Inr (key_of parse_datetime t)
   \<and> key_of parse_datetime t = (is_completed t, \<not> is_priority t, effective_due parse_datetime t)"
  by (auto simp: key_of_def sort_key_task_cases due_parses_def effective_due_def
      split: sum.splits)

lemma sort_key_task_Inr_titled:
  "sort_key_task parse_datetime t = Inr k \<Longrightarrow> t ''title'' \<noteq> None \<and> due_parses parse_datetime t"
  by (auto simp: sort_key_task_cases due_parses_def split: option.splits sum.splits)

lemma sort_key_task_Inl:
  "sort_key_task parse_datetime t = Inl e \<Longrightarrow> \<not> (t ''title'' \<noteq> None \<and> due_parses parse_datetime t)"
  by (auto simp: sort_key_task_cases due_parses_def split: option.splits sum.splits)

lemma insert_sorted_error: "insert_sorted x ys = Inl e \<Longrightarrow> e = TypeError"
proof (induction ys)
  case Nil
  then show ?case by simp
next
  case (Cons y ys)
  then show ?case
    by (auto simp: key_lt_rank split: if_splits sum.splits bool.splits)
qed

lemma sort_pairs_error: "sort_pairs xs = Inl e \<Longrightarrow> e = TypeError"
proof (induction xs)
  case Nil
  then show ?case by simp
next
  case (Cons x xs)
  then show ?case
    by (auto split: sum.splits dest: insert_sorted_error)
qed

lemma with_keys_error:
  "with_keys f xs = Inl e \<Longrightarrow> \<exists>x \<in> set xs. f x = Inl e"
  by (induction xs) (auto split: sum.splits)

lemma sorted_py_error:
  assumes "sorted_py (sort_key_task parse_datetime) xs = Inl e"
  shows "e = TypeError \<or> (\<exists>t \<in> set xs. sort_key_task parse_datetime t = Inl e)"
proof (cases "with_keys (sort_key_task parse_datetime) xs")
  case (Inl e')
  with assms have "e' = e" by (simp add: sorted_py_def)
  with with_keys_error [OF Inl] show ?thesis by blast
next
  case (Inr ks)
  with assms have "sort_pairs ks = Inl e" by (auto simp: sorted_py_def split: sum.splits)
  then show ?thesis by (simp add: sort_pairs_error)
qed


lemma order_tasks_Inr:
  assumes "order_tasks parse_datetime tasks = Inr out"
  shows "out = sort_key (rank_of parse_datetime) (filter is_completed tasks)
             @ sort_key (rank_of parse_datetime) (filter (\<lambda>t. \<not> is_completed t) tasks)"
    and "\<forall>t \<in> set tasks. t ''title'' \<noteq> None \<and> due_parses parse_datetime t"
    and "\<forall>a \<in> set tasks. \<forall>b \<in> set tasks.
           comparable (key_of parse_datetime a) (key_of parse_datetime b)"
proof -
  let ?f = "sort_key_task parse_datetime"
  let ?I = "filter (\<lambda>t. \<not> is_completed t) tasks" and ?C = "filter is_completed tasks"
  from assms obtain si sc where si: "sorted_py ?f ?I = Inr si" and sc: "sorted_py ?f ?C = Inr sc"
    and out: "out = sc @ si"
    by (auto simp: order_tasks_def Let_def split: sum.splits)
  note I = sorted_py_Inr [where K = "key_of parse_datetime", OF si key_of_eq]
  note C = sorted_py_Inr [where K = "key_of parse_datetime", OF sc key_of_eq]
  from I(1) C(1) out show "out = sort_key (rank_of parse_datetime) ?C
             @ sort_key (rank_of parse_datetime) ?I" by simp
  have keys: "?f t = Inr (key_of parse_datetime t)" if "t \<in> set tasks" for t
    using that I(2) C(2) by (cases "is_completed t") auto
  then show titled: "\<forall>t \<in> set tasks. t ''title'' \<noteq> None \<and> due_parses parse_datetime t"
    using sort_key_task_Inr_titled by blast
  show "\<forall>a \<in> set tasks. \<forall>b \<in> set tasks.
           comparable (key_of parse_datetime a) (key_of parse_datetime b)"
  proof (intro ballI)
    fix a b assume a: "a \<in> set tasks" and b: "b \<in> set tasks"
    from titled a b have ka: "key_of parse_datetime a = (is_completed a, \<not> is_priority a, effective_due parse_datetime a)"
      and kb: "key_of parse_datetime b = (is_completed b, \<not> is_priority b, effective_due parse_datetime b)"
      by (simp_all add: key_of_titled)
    show "comparable (key_of parse_datetime a) (key_of parse_datetime b)"
    proof (cases "is_completed a = is_completed b")
      case False
      then show ?thesis by (simp add: ka kb)
    next
      case True
      show ?thesis
      proof (cases "is_completed a")
        case True
        with \<open>is_completed a = is_completed b\<close> a b C(3) show ?thesis by simp
      next
        case False
        with \<open>is_completed a = is_completed b\<close> a b I(3) show ?thesis by simp
      qed
    qed
  qed
qed

lemma order_tasks_succeeds:
  assumes "\<forall>t \<in> set tasks. t ''title'' \<noteq> None \<and> due_parses parse_datetime t"
    and "\<forall>a \<in> set tasks. \<forall>b \<in> set tasks.
           comparable (key_of parse_datetime a) (key_of parse_datetime b)"
  shows "order_tasks parse_datetime tasks
         = Inr (sort_key (rank_of parse_datetime) (filter is_completed tasks)
                @ sort_key (rank_of parse_datetime) (filter (\<lambda>t. \<not> is_completed t) tasks))"
proof -
  let ?f = "sort_key_task parse_datetime"
  let ?I = "filter (\<lambda>t. \<not> is_completed t) tasks" and ?C = "filter is_completed tasks"
  have k: "\<forall>t \<in> set tasks. ?f t = Inr (key_of parse_datetime t)"
    using assms(1) by (simp add: key_of_titled)
  have "sorted_py ?f ?I = Inr (sort_key (rank_of parse_datetime) ?I)"
    by (rule sorted_py_succeeds) (use k assms(2) in auto)
  moreover have "sorted_py ?f ?C = Inr (sort_key (rank_of parse_datetime) ?C)"
    by (rule sorted_py_succeeds) (use k assms(2) in auto)
  ultimately show ?thesis by (simp add: order_tasks_def)
qed

lemma order_tasks_error:
  assumes "order_tasks parse_datetime tasks = Inl e"
  shows "e = TypeError \<or> (\<exists>t \<in> set tasks. sort_key_task parse_datetime t = Inl e)"
proof -
  let ?f = "sort_key_task parse_datetime"
  from assms have "sorted_py ?f (filter (\<lambda>t. \<not> is_completed t) tasks) = Inl e
                   \<or> sorted_py ?f (filter is_completed tasks) = Inl e"
    by (auto simp: order_tasks_def Let_def split: sum.splits)
  then show ?thesis
  proof
    assume "sorted_py ?f (filter (\<lambda>t. \<not> is_completed t) tasks) = Inl e"
    from sorted_py_error [OF this] show ?thesis by auto
  next
    assume "sorted_py ?f (filter is_completed tasks) = Inl e"
    from sorted_py_error [OF this] show ?thesis by auto
  qed
qed

lemma due_parses_absent:
  "t ''due'' = None \<or> t ''due'' = Some [] \<Longrightarrow> due_parses parse_datetime t"
  by (simp add: due_parses_def get_due_date_absent)

lemma effective_due_absent:
  assumes "t ''due'' = None \<or> t ''due'' = Some []"
  shows "kind_of (effective_due parse_datetime t) = Naive"
proof -
  have e: "effective_due parse_datetime t
           = Some (case extracted_due t of None \<Rightarrow> datetime_max | Some d \<Rightarrow> d)"
    using assms unfolding effective_due_def by (simp add: get_due_date_absent)
  have "tzinfo d = None" if "extracted_due t = Some d" for d
  proof -
    from that obtain r where "extract_date_time (title_notes t) = Inr (Some d, r)"
      by (auto simp: extracted_due_def split: sum.splits prod.splits)
    then show ?thesis by (rule extract_date_time_naive)
  qed
  then show ?thesis
    unfolding e by (cases "extracted_due t") (simp_all add: kind_of_def datetime_max_def)
qed

lemma effective_due_present:
  "t ''due'' = Some s \<Longrightarrow> s \<noteq> [] \<Longrightarrow> parse_datetime s = Inr d \<Longrightarrow>
   effective_due parse_datetime t = d \<and> due_parses parse_datetime t"
  by (simp add: effective_due_def due_parses_def get_due_date_present)

lemma order_tasks_mixed_kinds:
  assumes "\<forall>t \<in> set tasks. t ''title'' \<noteq> None \<and> due_parses parse_datetime t"
    and "a \<in> set tasks" and "b \<in> set tasks"
    and "is_completed a = is_completed b" and "is_priority a = is_priority b"
    and "kind_of (effective_due parse_datetime a) \<noteq> kind_of (effective_due parse_datetime b)"
  shows "order_tasks parse_datetime tasks = Inl TypeError"
proof (cases "order_tasks parse_datetime tasks")
  case (Inl e)
  with order_tasks_error [OF Inl] assms(1) sort_key_task_Inl show ?thesis by blast
next
  case (Inr out)
  from order_tasks_Inr(3) [OF Inr] assms(2,3)
  have "comparable (key_of parse_datetime a) (key_of parse_datetime b)" by blast
  moreover from assms(1,2,3) have "key_of parse_datetime a = (is_completed a, \<not> is_priority a, effective_due parse_datetime a)"
    and "key_of parse_datetime b = (is_completed b, \<not> is_priority b, effective_due parse_datetime b)"
    by (simp_all add: key_of_titled)
  ultimately show ?thesis using assms(4,5,6) by simp
qed

lemma order_tasks_uniform_kinds:
  assumes "order_tasks parse_datetime tasks = Inr out"
    and "a \<in> set tasks" and "b \<in> set tasks"
    and "is_completed a = is_completed b" and "is_priority a = is_priority b"
  shows "kind_of (effective_due parse_datetime a) = kind_of (effective_due parse_datetime b)"
proof (rule ccontr)
  assume "kind_of (effective_due parse_datetime a) \<noteq> kind_of (effective_due parse_datetime b)"
  from order_tasks_mixed_kinds [OF order_tasks_Inr(2) [OF assms(1)] assms(2,3,4,5) this] assms(1)
  show False by simp
qed

subsection \<open>The sample records\<close>

lemma sample_not_priority:
  "\<not> is_priority task_groceries" "\<not> is_priority task_no_due" "\<not> is_priority task_regular"
  "is_priority task_urgent" "\<not> is_priority task_another" "\<not> is_priority task_done"
proof -
  have "\<not> is_priority_task ''Buy groceries'' (Some ''Milk, eggs, bread'')" by code_simp
  then show "\<not> is_priority task_groceries"
    by (simp add: is_priority_def task_groceries_def get_or_def)
  have "\<not> is_priority_task ''Task without due date'' None" by code_simp
  then show "\<not> is_priority task_no_due"
    by (simp add: is_priority_def task_no_due_def get_or_def)
  have "\<not> is_priority_task ''Regular task'' None" by code_simp
  then show "\<not> is_priority task_regular"
    by (simp add: is_priority_def task_regular_def get_or_def)
  have "is_priority_task ''Urgent meeting'' None" by code_simp
  then show "is_priority task_urgent"
    by (simp add: is_priority_def task_urgent_def get_or_def)
  have "\<not> is_priority_task ''Another task'' None" by code_simp
  then show "\<not> is_priority task_another"
    by (simp add: is_priority_def task_another_def get_or_def)
  have "\<not> is_priority_task ''Pay rent'' None" by code_simp
  then show "\<not> is_priority task_done"
    by (simp add: is_priority_def task_done_def get_or_def)
qed

lemma sample_completed:
  "\<not> is_completed task_groceries" "\<not> is_completed task_no_due" "\<not> is_completed task_regular"
  "\<not> is_completed task_urgent" "\<not> is_completed task_another" "is_completed task_done"
  by (simp_all add: is_completed_def task_groceries_def task_no_due_def task_regular_def
      task_urgent_def task_another_def task_done_def)

lemma sample_titled:
  "task_groceries ''title'' = Some ''Buy groceries''" "task_no_due ''title'' = Some ''Task without due date''"
  "task_regular ''title'' = Some ''Regular task''" "task_urgent ''title'' = Some ''Urgent meeting''"
  "task_another ''title'' = Some ''Another task''" "task_done ''title'' = Some ''Pay rent''"
  by (simp_all add: task_groceries_def task_no_due_def task_regular_def
      task_urgent_def task_another_def task_done_def)

lemma sample_due:
  "effective_due parse_datetime task_regular = Some datetime_max"
  "effective_due parse_datetime task_urgent = Some datetime_max"
  "effective_due parse_datetime task_another = Some datetime_max"
  "effective_due parse_datetime task_done = Some datetime_max"
proof -
  have "extract_date_time ''Regular task '' = Inr (None, None)" by code_simp
  then show "effective_due parse_datetime task_regular = Some datetime_max"
    unfolding effective_due_def get_due_date_cases extracted_due_def
    by (simp add: task_regular_def title_notes_def get_or_def)
  have "extract_date_time ''Urgent meeting '' = Inr (None, None)" by code_simp
  then show "effective_due parse_datetime task_urgent = Some datetime_max"
    unfolding effective_due_def get_due_date_cases extracted_due_def
    by (simp add: task_urgent_def title_notes_def get_or_def)
  have "extract_date_time ''Another task '' = Inr (None, None)" by code_simp
  then show "effective_due parse_datetime task_another = Some datetime_max"
    unfolding effective_due_def get_due_date_cases extracted_due_def
    by (simp add: task_another_def title_notes_def get_or_def)
  have "extract_date_time ''Pay rent '' = Inr (None, None)" by code_simp
  then show "effective_due parse_datetime task_done = Some datetime_max"
    unfolding effective_due_def get_due_date_cases extracted_due_def
    by (simp add: task_done_def title_notes_def get_or_def)
qed

lemma sample_parses:
  "due_parses parse_datetime task_no_due" "due_parses parse_datetime task_regular"
  "due_parses parse_datetime task_urgent" "due_parses parse_datetime task_another"
  "due_parses parse_datetime task_done"
  by (rule due_parses_absent, simp add: task_no_due_def task_regular_def task_urgent_def
      task_another_def task_done_def)+

lemma sample_keys:
  "key_of parse_datetime task_regular = (False, True, Some datetime_max)"
  "key_of parse_datetime task_urgent = (False, False, Some datetime_max)"
  "key_of parse_datetime task_another = (False, True, Some datetime_max)"
  "key_of parse_datetime task_done = (True, True, Some datetime_max)"
  by (simp_all add: key_of_titled sample_titled sample_parses sample_completed
      sample_not_priority sample_due)

lemma sample_order:
  "order_tasks parse_datetime [task_regular, task_done, task_urgent, task_another]
   = Inr [task_done, task_urgent, task_regular, task_another]"
proof -
  let ?L = "[task_regular, task_done, task_urgent, task_another]"
  have "order_tasks parse_datetime ?L
        = Inr (sort_key (rank_of parse_datetime) (filter is_completed ?L)
                @ sort_key (rank_of parse_datetime) (filter (\<lambda>t. \<not> is_completed t) ?L))"
    by (rule order_tasks_succeeds)
      (simp_all add: sample_titled sample_parses sample_keys kind_of_def)
  then show ?thesis
    by (simp add: sample_completed sample_keys)
qed

subsection \<open>Partitions, ties and the second ordering\<close>

lemma mset_partition_filter:
  "mset (filter P xs) + mset (filter (\<lambda>x. \<not> P x) xs) = mset xs"
  by (induction xs) auto

lemma filter_partition_fixed:
  assumes "\<forall>u \<in> set xs. Q u \<longrightarrow> P u = c"
  shows "filter Q (filter P xs) @ filter Q (filter (\<lambda>x. \<not> P x) xs) = filter Q xs"
proof (cases c)
  case True
  have "filter Q (filter (\<lambda>x. \<not> P x) xs) = []"
    using assms True by (auto simp: filter_empty_conv)
  moreover have "filter Q (filter P xs) = filter Q xs"
    unfolding filter_filter using assms True by (intro filter_cong) auto
  ultimately show ?thesis by simp
next
  case False
  have "filter Q (filter P xs) = []"
    using assms False by (auto simp: filter_empty_conv)
  moreover have "filter Q (filter (\<lambda>x. \<not> P x) xs) = filter Q xs"
    unfolding filter_filter using assms False by (intro filter_cong) auto
  ultimately show ?thesis by simp
qed

lemma key_le_rank:
  assumes "a ''title'' \<noteq> None \<and> due_parses parse_datetime a"
    and "b ''title'' \<noteq> None \<and> due_parses parse_datetime b"
    and "comparable (key_of parse_datetime b) (key_of parse_datetime a)"
  shows "key_le parse_datetime a b \<longleftrightarrow> rank_of parse_datetime a \<le> rank_of parse_datetime b"
proof -
  have ka: "sort_key_task parse_datetime a = Inr (key_of parse_datetime a)"
    and kb: "sort_key_task parse_datetime b = Inr (key_of parse_datetime b)"
    using assms(1,2) by (simp_all add: key_of_titled)
  show ?thesis
    unfolding key_le_def ka kb using assms(3) by (simp add: key_lt_rank not_less)
qed

lemma rank_of_completed:
  "t ''title'' \<noteq> None \<and> due_parses parse_datetime t \<Longrightarrow>
   fst (rank_of parse_datetime t) = is_completed t"
  by (simp add: key_of_titled)

lemma order_tasks_again:
  assumes "order_tasks parse_datetime tasks = Inr out"
  shows "order_tasks parse_datetime out = Inr out"
proof -
  let ?f = "rank_of parse_datetime"
  let ?C = "sort_key ?f (filter is_completed tasks)"
  let ?I = "sort_key ?f (filter (\<lambda>t. \<not> is_completed t) tasks)"
  note R = order_tasks_Inr [OF assms]
  have out: "out = ?C @ ?I" by (rule R(1))
  have sub: "set out = set tasks" by (subst out) auto
  have fC: "filter is_completed out = ?C" and fI: "filter (\<lambda>t. \<not> is_completed t) out = ?I"
    by (simp_all add: out filter_empty_conv)
  have "order_tasks parse_datetime out
        = Inr (sort_key ?f (filter is_completed out) @ sort_key ?f (filter (\<lambda>t. \<not> is_completed t) out))"
    by (rule order_tasks_succeeds) (use R(2,3) sub in auto)
  also have "sort_key ?f (filter is_completed out) = ?C"
    unfolding fC by (rule sort_key_id_if_sorted) (rule sorted_sort_key)
  also have "sort_key ?f (filter (\<lambda>t. \<not> is_completed t) out) = ?I"
    unfolding fI by (rule sort_key_id_if_sorted) (rule sorted_sort_key)
  finally show ?thesis by (simp add: out)
qed

text \<open>
  Where the ordering returns, its result is a permutation of the input, with every
  completed record before every other record; within each of the two parts no record
  has a key less than the key of a record before it, and records with tied keys keep
  their relative order of the input.
\<close>

lemma order_tasks_Inr_sorted_partition:
  assumes "order_tasks parse_datetime tasks = Inr out"
  shows "mset out = mset tasks
       \<and> out = filter is_completed out @ filter (\<lambda>t. \<not> is_completed t) out
       \<and> sorted_wrt (key_le parse_datetime) (filter is_completed out)
       \<and> sorted_wrt (key_le parse_datetime) (filter (\<lambda>t. \<not> is_completed t) out)
       \<and> (\<forall>t \<in> set tasks. filter (tied parse_datetime t) out = filter (tied parse_datetime t) tasks)"
proof -
  let ?f = "rank_of parse_datetime"
  let ?C = "sort_key ?f (filter is_completed tasks)"
  let ?I = "sort_key ?f (filter (\<lambda>t. \<not> is_completed t) tasks)"
  note R = order_tasks_Inr [OF assms]
  have out: "out = ?C @ ?I" by (rule R(1))
  have titled: "t ''title'' \<noteq> None \<and> due_parses parse_datetime t" if "t \<in> set tasks" for t
    using R(2) that by blast
  have comp: "comparable (key_of parse_datetime a) (key_of parse_datetime b)"
    if "a \<in> set tasks" "b \<in> set tasks" for a b using R(3) that by blast
  have le: "key_le parse_datetime a b \<longleftrightarrow> ?f a \<le> ?f b"
    if "a \<in> set tasks" "b \<in> set tasks" for a b
    by (rule key_le_rank) (simp_all add: that titled comp)
  have perm: "mset out = mset tasks"
    by (simp add: out mset_partition_filter)
  have fC: "filter is_completed out = ?C" and fI: "filter (\<lambda>t. \<not> is_completed t) out = ?I"
    by (simp_all add: out filter_empty_conv)
  have part: "out = filter is_completed out @ filter (\<lambda>t. \<not> is_completed t) out"
    unfolding fC fI by (rule out)
  have sC: "sorted_wrt (key_le parse_datetime) ?C"
  proof -
    have "sorted_wrt (\<lambda>a b. ?f a \<le> ?f b) ?C"
      using sorted_sort_key [of ?f "filter is_completed tasks"] by (simp add: sorted_map)
    then show ?thesis
      by (rule sorted_wrt_mono_rel [rotated]) (simp add: le)
  qed
  have sI: "sorted_wrt (key_le parse_datetime) ?I"
  proof -
    have "sorted_wrt (\<lambda>a b. ?f a \<le> ?f b) ?I"
      using sorted_sort_key [of ?f "filter (\<lambda>t. \<not> is_completed t) tasks"] by (simp add: sorted_map)
    then show ?thesis
      by (rule sorted_wrt_mono_rel [rotated]) (simp add: le)
  qed
  have stable: "filter (tied parse_datetime t) out = filter (tied parse_datetime t) tasks"
    if t: "t \<in> set tasks" for t
  proof -
    have tied_eq: "tied parse_datetime t u \<longleftrightarrow> ?f u = ?f t" if "u \<in> set tasks" for u
      unfolding tied_def using le [OF t that] le [OF that t] by auto
    have fixed: "\<forall>u \<in> set tasks. ?f u = ?f t \<longrightarrow> is_completed u = is_completed t"
    proof (intro ballI impI)
      fix u assume u: "u \<in> set tasks" and e: "?f u = ?f t"
      from e have "fst (?f u) = fst (?f t)" by simp
      then show "is_completed u = is_completed t"
        using rank_of_completed [of u parse_datetime] rank_of_completed [of t parse_datetime] titled [OF u] titled [OF t] by simp
    qed
    have "filter (tied parse_datetime t) out = filter (\<lambda>u. ?f u = ?f t) out"
      by (rule filter_cong) (use tied_eq out in auto)
    also have "\<dots> = filter (\<lambda>u. ?f u = ?f t) ?C @ filter (\<lambda>u. ?f u = ?f t) ?I"
      by (subst out) simp
    also have "\<dots> = filter (\<lambda>u. ?f u = ?f t) (filter is_completed tasks)
                    @ filter (\<lambda>u. ?f u = ?f t) (filter (\<lambda>t. \<not> is_completed t) tasks)"
      by (simp only: sort_key_stable)
    also have "\<dots> = filter (\<lambda>u. ?f u = ?f t) tasks"
      by (rule filter_partition_fixed [OF fixed])
    also have "\<dots> = filter (tied parse_datetime t) tasks"
      by (rule filter_cong) (use tied_eq in auto)
    finally show ?thesis .
  qed
  from perm part sC sI stable show ?thesis
    unfolding fC fI by blast
qed

section \<open>The claims\<close>

subsection \<open>C1: the result of the ordering\<close>

text \<open>
  C1. The claim: for every input list of task records the ordering returns a permutation
  of the input, sorted within the completed and the other records. On the list below
  \<open>order_tasks\<close> returns nothing. Its two records have a title and an id, neither
  is completed, neither is a priority task; the first has a \<^verbatim>\<open>due\<close> with the
  offset \<^verbatim>\<open>Z\<close>, the second has no \<^verbatim>\<open>due\<close>. The key of the first holds the
  aware timestamp parsed from \<^verbatim>\<open>due\<close>, the key of the second the naive maximum
  timestamp that stands for "no due date"; the first two components of the keys are
  equal, the comparison of the third is undefined, and the ordering raises
  \<^verbatim>\<open>TypeError\<close>.
\<close>

theorem order_tasks_raises_on_mixed_due:
  "sort_key_task parse_datetime_iso task_groceries
     = Inr (False, True, Some \<lparr>year = 2024, month = 11, day = 28, hour = 10, minute = 0,
                                second = 0, microsecond = 0, tzinfo = Some 0\<rparr>)
   \<and> sort_key_task parse_datetime_iso task_no_due = Inr (False, True, Some datetime_max)
   \<and> tzinfo datetime_max = None
   \<and> order_tasks parse_datetime_iso [task_groceries, task_no_due] = Inl TypeError"
proof -
  let ?d = "\<lparr>year = 2024, month = 11, day = 28, hour = 10, minute = 0, second = 0,
                    microsecond = 0, tzinfo = Some (0::int)\<rparr>"
  have p: "parse_datetime_iso ''2024-11-28T10:00:00Z'' = Inr (Some ?d)" by code_simp
  have gd: "task_groceries ''due'' = Some ''2024-11-28T10:00:00Z''"
    by (simp add: task_groceries_def)
  have g: "get_due_date parse_datetime_iso task_groceries = Inr (Some ?d)"
    using get_due_date_present [where task = task_groceries and parse_datetime = parse_datetime_iso] gd p
    by simp
  have "extract_date_time ''Task without due date '' = Inr (None, None)" by code_simp
  then have x: "extracted_due task_no_due = None"
    by (simp add: extracted_due_def task_no_due_def title_notes_def get_or_def)
  have n: "get_due_date parse_datetime_iso task_no_due = Inr (Some datetime_max)"
    unfolding get_due_date_cases x by (simp add: task_no_due_def)
  have k1: "sort_key_task parse_datetime_iso task_groceries = Inr (False, True, Some ?d)"
    unfolding sort_key_task_cases g
    using sample_completed sample_not_priority by (simp add: task_groceries_def)
  have k2: "sort_key_task parse_datetime_iso task_no_due = Inr (False, True, Some datetime_max)"
    unfolding sort_key_task_cases n
    using sample_completed sample_not_priority by (simp add: task_no_due_def)
  have m: "tzinfo datetime_max = None" by (simp add: datetime_max_def)
  have e: "effective_due parse_datetime_iso task_groceries = Some ?d
           \<and> due_parses parse_datetime_iso task_groceries"
    using effective_due_present [where t = task_groceries and parse_datetime = parse_datetime_iso
        and s = "''2024-11-28T10:00:00Z''" and d = "Some ?d"] gd p by simp
  then have a: "kind_of (effective_due parse_datetime_iso task_groceries) = Aware"
    by (simp add: kind_of_def)
  have b: "kind_of (effective_due parse_datetime_iso task_no_due) = Naive"
    by (rule effective_due_absent) (simp add: task_no_due_def)
  from e have dp: "due_parses parse_datetime_iso task_groceries" by simp
  have o: "order_tasks parse_datetime_iso [task_groceries, task_no_due] = Inl TypeError"
    by (rule order_tasks_mixed_kinds [of _ _ task_groceries task_no_due])
      (simp_all add: sample_titled sample_parses sample_completed sample_not_priority dp a b)
  from k1 k2 m o show ?thesis by simp
qed

subsection \<open>C2: the two slash-separated formats\<close>

text \<open>
  C2 as stated: for every text that contains a substring \<^verbatim>\<open>NN/NN/NNNN\<close> the date is
  parsed with \<^verbatim>\<open>%d/%m/%Y\<close>, and \<^verbatim>\<open>%m/%d/%Y\<close> never produces the extracted date.
  The loop goes on to the next candidate when a parse fails, so this is false: in
  \<^verbatim>\<open>12/25/2024\<close> the pattern matches, \<^verbatim>\<open>%d/%m/%Y\<close> raises (there is no month 25),
  and \<^verbatim>\<open>%m/%d/%Y\<close> produces 25 December 2024.
\<close>

theorem slash_date_mdY_counterexample:
  "re_search pat_slash ''12/25/2024'' = Some ''12/25/2024''
   \<and> strptime ''12/25/2024'' fmt_dmY = Inl ValueError
   \<and> strptime ''12/25/2024'' fmt_mdY = Inr (mk_datetime 2024 12 25 0 0)
   \<and> extract_date_time ''12/25/2024'' = Inr (Some (mk_datetime 2024 12 25 0 0), None)"
proof -
  have a: "re_search pat_slash ''12/25/2024'' = Some ''12/25/2024''" by code_simp
  have b: "strptime ''12/25/2024'' fmt_dmY = Inl ValueError" by code_simp
  have c: "strptime ''12/25/2024'' fmt_mdY = Inr (mk_datetime 2024 12 25 0 0)" by code_simp
  have d: "extract_date_time ''12/25/2024'' = Inr (Some (mk_datetime 2024 12 25 0 0), None)"
    by code_simp
  from a b c d show ?thesis by simp
qed

text \<open>
  C2, amended. For every text in which the \<^verbatim>\<open>YYYY/MM/DD\<close> candidate gives no date and
  whose first substring \<^verbatim>\<open>NN/NN/NNNN\<close> is \<open>m\<close>: the date loop returns the
  \<^verbatim>\<open>%d/%m/%Y\<close> reading of \<open>m\<close> when \<open>m\<close> parses so; otherwise it returns the
  \<^verbatim>\<open>%m/%d/%Y\<close> reading of the same \<open>m\<close> when that parses; otherwise it goes on
  with the month-name candidates. The \<^verbatim>\<open>%m/%d/%Y\<close> candidate is reachable, exactly for
  a match that is no day/month/year date.
\<close>

theorem slash_date_precedence:
  assumes "re_search pat_slash txt = Some m"
    and "\<forall>m0. re_search pat_Ymd txt = Some m0 \<longrightarrow> strptime m0 fmt_Ymd = Inl ValueError"
  shows "find_date DATE_PATTERNS txt =
           (case strptime m fmt_dmY of
              Inr d \<Rightarrow> Inr (Some d)
            | Inl _ \<Rightarrow>
                (case strptime m fmt_mdY of
                   Inr d \<Rightarrow> Inr (Some d)
                 | Inl _ \<Rightarrow> find_date (drop 3 DATE_PATTERNS) txt))"
proof -
  let ?rest = "drop 3 DATE_PATTERNS"
  have L: "DATE_PATTERNS = (pat_Ymd, fmt_Ymd) # (pat_slash, fmt_dmY) # (pat_slash, fmt_mdY) # ?rest"
    by (simp add: DATE_PATTERNS_def)
  have "find_date DATE_PATTERNS txt
        = find_date ((pat_Ymd, fmt_Ymd) # (pat_slash, fmt_dmY) # (pat_slash, fmt_mdY) # ?rest) txt"
    by (subst L) (rule refl)
  also have "\<dots> = find_date ((pat_slash, fmt_dmY) # (pat_slash, fmt_mdY) # ?rest) txt"
  proof (cases "re_search pat_Ymd txt")
    case None
    then show ?thesis unfolding find_date_step [of pat_Ymd] by simp
  next
    case (Some m0)
    with assms(2) have "strptime m0 fmt_Ymd = Inl ValueError" by simp
    with Some show ?thesis unfolding find_date_step [of pat_Ymd] by simp
  qed
  also have "\<dots> = (case strptime m fmt_dmY of
              Inr d \<Rightarrow> Inr (Some d)
            | Inl _ \<Rightarrow>
                (case strptime m fmt_mdY of
                   Inr d \<Rightarrow> Inr (Some d)
                 | Inl _ \<Rightarrow> find_date ?rest txt))"
    unfolding find_date_step [of pat_slash] assms(1) option.case by (rule refl)
  finally show ?thesis .
qed

theorem slash_date_precedence_witness:
  "find_date DATE_PATTERNS ''12/25/2024'' = Inr (Some (mk_datetime 2024 12 25 0 0))
   \<and> find_date DATE_PATTERNS ''25/12/2024'' = Inr (Some (mk_datetime 2024 12 25 0 0))"
proof -
  have y1: "\<forall>m0. re_search pat_Ymd ''12/25/2024'' = Some m0 \<longrightarrow> strptime m0 fmt_Ymd = Inl ValueError"
  proof -
    have "re_search pat_Ymd ''12/25/2024'' = None" by code_simp
    then show ?thesis by simp
  qed
  have y2: "\<forall>m0. re_search pat_Ymd ''25/12/2024'' = Some m0 \<longrightarrow> strptime m0 fmt_Ymd = Inl ValueError"
  proof -
    have "re_search pat_Ymd ''25/12/2024'' = None" by code_simp
    then show ?thesis by simp
  qed
  have a1: "re_search pat_slash ''12/25/2024'' = Some ''12/25/2024''" by code_simp
  have a2: "re_search pat_slash ''25/12/2024'' = Some ''25/12/2024''" by code_simp
  have b1: "strptime ''12/25/2024'' fmt_dmY = Inl ValueError" by code_simp
  have c1: "strptime ''12/25/2024'' fmt_mdY = Inr (mk_datetime 2024 12 25 0 0)" by code_simp
  have b2: "strptime ''25/12/2024'' fmt_dmY = Inr (mk_datetime 2024 12 25 0 0)" by code_simp
  show ?thesis
    using slash_date_precedence [OF a1 y1] slash_date_precedence [OF a2 y2] b1 c1 b2
    by simp
qed

subsection \<open>C3: a due field that does not parse\<close>

text \<open>
  C3 as stated: when \<^verbatim>\<open>due\<close> is present but does not parse, the conversion and the
  ordering fall back to the extractor over title and notes, and the effective due is
  never missing while the text holds a date. Both functions choose by the presence of
  the field, not by the success of the parse: the record below has the unparseable due
  \<^verbatim>\<open>next week\<close> and a title with the date 27 Nov 2024 18:00, and both give
  \<open>None\<close>.
\<close>

theorem unparseable_due_counterexample:
  "task_bad_due ''due'' = Some ''next week''
   \<and> parse_datetime_iso ''next week'' = Inr None
   \<and> extracted_due task_bad_due = Some (mk_datetime 2024 11 27 18 0)
   \<and> convert_api_item parse_datetime_iso task_bad_due
       = Inr \<lparr>summary = ''Meeting on 27 Nov 2024 at 18:00'', uid = Some ''7'',
              status = Some NEEDS_ACTION, due = None, description = None\<rparr>
   \<and> get_due_date parse_datetime_iso task_bad_due = Inr None"
proof -
  have a: "task_bad_due ''due'' = Some ''next week''" by (simp add: task_bad_due_def)
  have b: "parse_datetime_iso ''next week'' = Inr None" by code_simp
  have t: "title_notes task_bad_due = ''Meeting on 27 Nov 2024 at 18:00 ''"
    by (simp add: task_bad_due_def title_notes_def get_or_def)
  have "extract_date_time ''Meeting on 27 Nov 2024 at 18:00 ''
        = Inr (Some (mk_datetime 2024 11 27 18 0), Some ''18:00'')" by code_simp
  then have c: "extracted_due task_bad_due = Some (mk_datetime 2024 11 27 18 0)"
    by (simp add: extracted_due_def t)
  have d: "convert_api_item parse_datetime_iso task_bad_due
       = Inr \<lparr>summary = ''Meeting on 27 Nov 2024 at 18:00'', uid = Some ''7'',
              status = Some NEEDS_ACTION, due = None, description = None\<rparr>"
    unfolding convert_api_item_cases
    by (simp add: task_bad_due_def b get_or_def TODO_STATUS_MAP_def)
  have e: "get_due_date parse_datetime_iso task_bad_due = Inr None"
    using get_due_date_present [where task = task_bad_due and parse_datetime = parse_datetime_iso] a b
    by simp
  from a b c d e show ?thesis by simp
qed

text \<open>
  C3, amended. Both functions choose by the presence of the \<^verbatim>\<open>due\<close> field, and
  what \<open>parse_datetime\<close> does with the field is the outcome. In the conversion, when
  the field is present: if \<open>parse_datetime\<close> returns, the due of the converted item
  is exactly what it returns, a timestamp or nothing (for a string that does not parse,
  the extractor is not consulted); if \<open>parse_datetime\<close> raises, the conversion
  raises the same exception. Only when the field is absent is the due the date extracted
  from title, a space and notes. For the ordering, the effective due of a record with a
  non-empty \<^verbatim>\<open>due\<close> is the outcome of \<open>parse_datetime\<close> on it: the timestamp,
  nothing when the string does not parse (no fallback to the extractor or to the maximum
  timestamp), or the exception; when the field is absent or empty the effective due is
  the extracted date, or the maximum timestamp when nothing is extracted.
\<close>

theorem due_fallback_only_when_absent:
  "(\<forall>due_str d title ident.
        item ''due'' = Some due_str \<and> parse_datetime due_str = Inr d
        \<and> item ''title'' = Some title \<and> item ''id'' = Some ident
      \<longrightarrow> (\<exists>r. convert_api_item parse_datetime item = Inr r \<and> due r = d))
   \<and> (\<forall>due_str e. item ''due'' = Some due_str \<and> parse_datetime due_str = Inl e
        \<longrightarrow> convert_api_item parse_datetime item = Inl e)
   \<and> (\<forall>title ident. item ''due'' = None \<and> item ''title'' = Some title \<and> item ''id'' = Some ident
        \<longrightarrow> (\<exists>r. convert_api_item parse_datetime item = Inr r \<and> due r = extracted_due item))
   \<and> (\<forall>due_str. item ''due'' = Some due_str \<and> due_str \<noteq> []
        \<longrightarrow> get_due_date parse_datetime item = parse_datetime due_str)
   \<and> (item ''due'' = None \<or> item ''due'' = Some []
        \<longrightarrow> get_due_date parse_datetime item
            = Inr (Some (case extracted_due item of None \<Rightarrow> datetime_max | Some d \<Rightarrow> d)))"
proof (intro conjI allI impI)
  fix due_str d title ident
  assume "item ''due'' = Some due_str \<and> parse_datetime due_str = Inr d
        \<and> item ''title'' = Some title \<and> item ''id'' = Some ident"
  then show "\<exists>r. convert_api_item parse_datetime item = Inr r \<and> due r = d"
    unfolding convert_api_item_cases by simp
next
  fix due_str e
  assume "item ''due'' = Some due_str \<and> parse_datetime due_str = Inl e"
  then show "convert_api_item parse_datetime item = Inl e"
    unfolding convert_api_item_cases by simp
next
  fix title ident
  assume "item ''due'' = None \<and> item ''title'' = Some title \<and> item ''id'' = Some ident"
  then show "\<exists>r. convert_api_item parse_datetime item = Inr r \<and> due r = extracted_due item"
    unfolding convert_api_item_cases by simp
next
  fix due_str
  assume "item ''due'' = Some due_str \<and> due_str \<noteq> []"
  then show "get_due_date parse_datetime item = parse_datetime due_str"
    by (simp add: get_due_date_present)
next
  assume "item ''due'' = None \<or> item ''due'' = Some []"
  then show "get_due_date parse_datetime item
            = Inr (Some (case extracted_due item of None \<Rightarrow> datetime_max | Some d \<Rightarrow> d))"
    unfolding get_due_date_cases by auto
qed

theorem due_fallback_only_when_absent_witness:
  "(\<exists>r. convert_api_item parse_datetime_iso task_groceries = Inr r
        \<and> due r = Some \<lparr>year = 2024, month = 11, day = 28, hour = 10, minute = 0, second = 0,
                         microsecond = 0, tzinfo = Some 0\<rparr>)
   \<and> get_due_date parse_datetime_iso task_groceries
       = Inr (Some \<lparr>year = 2024, month = 11, day = 28, hour = 10, minute = 0, second = 0,
                     microsecond = 0, tzinfo = Some 0\<rparr>)
   \<and> (\<exists>r. convert_api_item parse_datetime_iso task_no_due = Inr r \<and> due r = None)
   \<and> get_due_date parse_datetime_iso task_no_due = Inr (Some datetime_max)
   \<and> (\<exists>r. convert_api_item parse_datetime_iso task_bad_due = Inr r \<and> due r = None)
   \<and> get_due_date parse_datetime_iso task_bad_due = Inr None
   \<and> convert_api_item parse_datetime_iso task_invalid_due = Inl ValueError
   \<and> get_due_date parse_datetime_iso task_invalid_due = Inl ValueError"
proof -
  let ?d = "\<lparr>year = 2024, month = 11, day = 28, hour = 10, minute = 0, second = 0,
                    microsecond = 0, tzinfo = Some (0::int)\<rparr>"
  have p: "parse_datetime_iso ''2024-11-28T10:00:00Z'' = Inr (Some ?d)" by code_simp
  have q: "parse_datetime_iso ''next week'' = Inr None" by code_simp
  have v: "parse_datetime_iso ''2024-13-01T10:00:00Z'' = Inl ValueError" by code_simp
  have g: "task_groceries ''title'' = Some ''Buy groceries'' \<and> task_groceries ''id'' = Some ''123''"
    by (simp add: task_groceries_def)
  have gd: "task_groceries ''due'' = Some ''2024-11-28T10:00:00Z'' \<and> ''2024-11-28T10:00:00Z'' \<noteq> []"
    by (simp add: task_groceries_def)
  have n: "task_no_due ''due'' = None" by (simp add: task_no_due_def)
  have nt: "task_no_due ''title'' = Some ''Task without due date'' \<and> task_no_due ''id'' = Some ''124''"
    by (simp add: task_no_due_def)
  have t: "title_notes task_no_due = ''Task without due date ''"
    by (simp add: task_no_due_def title_notes_def get_or_def)
  have "extract_date_time ''Task without due date '' = Inr (None, None)" by code_simp
  then have x: "extracted_due task_no_due = None" by (simp add: extracted_due_def t)
  have b: "task_bad_due ''title'' = Some ''Meeting on 27 Nov 2024 at 18:00''
           \<and> task_bad_due ''id'' = Some ''7''" by (simp add: task_bad_due_def)
  have bd: "task_bad_due ''due'' = Some ''next week'' \<and> ''next week'' \<noteq> []"
    by (simp add: task_bad_due_def)
  have i: "task_invalid_due ''due'' = Some ''2024-13-01T10:00:00Z'' \<and> ''2024-13-01T10:00:00Z'' \<noteq> []"
    by (simp add: task_invalid_due_def)
  note T = due_fallback_only_when_absent [of task_groceries parse_datetime_iso]
  note U = due_fallback_only_when_absent [of task_no_due parse_datetime_iso]
  note V = due_fallback_only_when_absent [of task_bad_due parse_datetime_iso]
  note W = due_fallback_only_when_absent [of task_invalid_due parse_datetime_iso]
  from T g gd p have 1: "\<exists>r. convert_api_item parse_datetime_iso task_groceries = Inr r \<and> due r = Some ?d"
    by blast
  from T gd have "get_due_date parse_datetime_iso task_groceries
                  = parse_datetime_iso ''2024-11-28T10:00:00Z''" by blast
  with p have 2: "get_due_date parse_datetime_iso task_groceries = Inr (Some ?d)" by simp
  from U n nt have "\<exists>r. convert_api_item parse_datetime_iso task_no_due = Inr r
                        \<and> due r = extracted_due task_no_due" by blast
  with x have 3: "\<exists>r. convert_api_item parse_datetime_iso task_no_due = Inr r \<and> due r = None"
    by simp
  from U n have "get_due_date parse_datetime_iso task_no_due
       = Inr (Some (case extracted_due task_no_due of None \<Rightarrow> datetime_max | Some d \<Rightarrow> d))"
    by blast
  with x have 4: "get_due_date parse_datetime_iso task_no_due = Inr (Some datetime_max)" by simp
  from V b bd q have 5: "\<exists>r. convert_api_item parse_datetime_iso task_bad_due = Inr r \<and> due r = None"
    by blast
  from V bd have "get_due_date parse_datetime_iso task_bad_due = parse_datetime_iso ''next week''"
    by blast
  with q have 6: "get_due_date parse_datetime_iso task_bad_due = Inr None" by simp
  from W i v have 7: "convert_api_item parse_datetime_iso task_invalid_due = Inl ValueError"
    by blast
  from W i have "get_due_date parse_datetime_iso task_invalid_due
                 = parse_datetime_iso ''2024-13-01T10:00:00Z''" by blast
  with v have 8: "get_due_date parse_datetime_iso task_invalid_due = Inl ValueError" by simp
  from 1 2 3 4 5 6 7 8 show ?thesis by blast
qed

subsection \<open>C4: the due string of a remote record\<close>

text \<open>
  C4 says that the emitted \<^verbatim>\<open>due\<close> is the UTC timestamp in ISO-8601 form without
  its offset, followed by a single \<^verbatim>\<open>Z\<close>, as \<open>format_due_datetime\<close> gives for a
  naive timestamp. \<open>convert_todo_item\<close> passes it the result of the conversion to UTC,
  which is aware: whenever the converted timestamp carries an offset, the emitted string
  is the local ISO-8601 form, then that offset, then \<^verbatim>\<open>Z\<close>; for a due already in UTC
  it ends in \<^verbatim>\<open>+00:00Z\<close>.
\<close>

theorem convert_todo_item_due_offset_and_Z:
  assumes "due item = Some d" and "as_utc d = Inr u" and "tzinfo u = Some off"
  shows "\<exists>res. convert_todo_item as_utc item = Inr res
           \<and> res ''due'' = Some (iso_local u @ format_offset off @ ''Z'')"
  using convert_todo_item_due [where as_utc = as_utc, OF assms(1,2)] assms(3)
  by (simp add: format_due_datetime_def isoformat_def)

theorem convert_todo_item_due_offset_and_Z_witness:
  "(\<exists>res. convert_todo_item (as_utc_fixed 0) item_due_utc = Inr res
          \<and> res ''due'' = Some ''2024-11-27T18:00:00+00:00Z'')
   \<and> (\<exists>res. convert_todo_item (as_utc_fixed 60) item_due_naive = Inr res
          \<and> res ''due'' = Some ''2024-11-27T17:00:00+00:00Z'')
   \<and> format_due_datetime (mk_datetime 2024 11 27 18 0) = ''2024-11-27T18:00:00Z''"
proof -
  let ?d = "\<lparr>year = 2024, month = 11, day = 27, hour = 18, minute = 0, second = 0,
                  microsecond = 0, tzinfo = Some (0::int)\<rparr>"
  let ?u = "\<lparr>year = 2024, month = 11, day = 27, hour = 17, minute = 0, second = 0,
                  microsecond = 0, tzinfo = Some (0::int)\<rparr>"
  have a1: "due item_due_utc = Some ?d" by (simp add: item_due_utc_def)
  have a2: "as_utc_fixed 0 ?d = Inr ?d" by (simp add: as_utc_fixed_def)
  have a3: "iso_local ?d @ format_offset 0 @ ''Z'' = ''2024-11-27T18:00:00+00:00Z''" by code_simp
  have b1: "due item_due_naive = Some (mk_datetime 2024 11 27 18 0)" by (simp add: item_due_naive_def)
  have b2: "as_utc_fixed 60 (mk_datetime 2024 11 27 18 0) = Inr ?u" by code_simp
  have b3: "iso_local ?u @ format_offset 0 @ ''Z'' = ''2024-11-27T17:00:00+00:00Z''" by code_simp
  have c: "format_due_datetime (mk_datetime 2024 11 27 18 0) = ''2024-11-27T18:00:00Z''" by code_simp
  from convert_todo_item_due_offset_and_Z [where as_utc = "as_utc_fixed 0" and off = 0, OF a1 a2]
  have A: "\<exists>res. convert_todo_item (as_utc_fixed 0) item_due_utc = Inr res
          \<and> res ''due'' = Some ''2024-11-27T18:00:00+00:00Z''" by (simp add: a3)
  from convert_todo_item_due_offset_and_Z [where as_utc = "as_utc_fixed 60" and off = 0, OF b1 b2]
  have B: "\<exists>res. convert_todo_item (as_utc_fixed 60) item_due_naive = Inr res
          \<and> res ''due'' = Some ''2024-11-27T17:00:00+00:00Z''" by (simp add: b3)
  from A B c show ?thesis by blast
qed

subsection \<open>C5: the time pattern and the case of AM/PM\<close>

text \<open>
  C5 as stated: the time search takes \<^verbatim>\<open>AM\<close>/\<^verbatim>\<open>PM\<close> case-insensitively, so that
  \<^verbatim>\<open>6:30 pm\<close> is a 12-hour time and gives 18:30, as \<^verbatim>\<open>6:30 PM\<close> does. The pattern
  is compiled without a case flag: in \<^verbatim>\<open>6:30 pm\<close> only \<^verbatim>\<open>6:30\<close> is matched, it is
  read as a 24-hour time, and the date gets 06:30.
\<close>

theorem time_suffix_case_counterexample:
  "extract_date_time ''27 Nov 2024 6:30 pm'' = Inr (Some (mk_datetime 2024 11 27 6 30), Some ''6:30'')
   \<and> extract_date_time ''27 Nov 2024 6:30 PM'' = Inr (Some (mk_datetime 2024 11 27 18 30), Some ''6:30 PM'')"
proof -
  have a: "extract_date_time ''27 Nov 2024 6:30 pm''
           = Inr (Some (mk_datetime 2024 11 27 6 30), Some ''6:30'')" by code_simp
  have b: "extract_date_time ''27 Nov 2024 6:30 PM''
           = Inr (Some (mk_datetime 2024 11 27 18 30), Some ''6:30 PM'')" by code_simp
  from a b show ?thesis by simp
qed

text \<open>
  C5, amended. For every text, the time substring that is found has the form
  \<^verbatim>\<open>H:MM\<close> or \<^verbatim>\<open>HH:MM\<close>, optionally followed by an upper-case \<^verbatim>\<open>AM\<close> or
  \<^verbatim>\<open>PM\<close> with at most one white-space character before it; it never contains a
  lower-case letter. A match without \<^verbatim>\<open>AM\<close> and \<^verbatim>\<open>PM\<close> is read as a 24-hour
  time and combined into the extracted date as such: \<^verbatim>\<open>6:30 pm\<close> gives 06:30, while
  \<^verbatim>\<open>6:30 PM\<close> gives 18:30.
\<close>

theorem time_suffix_uppercase_only:
  assumes "extract_date_time txt = Inr (date, Some t)"
  shows "(\<exists>h m suf. t = h @ '':'' @ m @ suf
            \<and> h \<noteq> [] \<and> length h \<le> 2 \<and> list_all is_digit h
            \<and> length m = 2 \<and> list_all is_digit m
            \<and> (suf = [] \<or> (\<exists>w x. suf = w @ [x, CHR ''M''] \<and> x \<in> set ''AP''
                               \<and> length w \<le> 1 \<and> list_all is_space w)))
       \<and> set t \<inter> set ''abcdefghijklmnopqrstuvwxyz'' = {}
       \<and> (\<forall>d. find_date DATE_PATTERNS txt = Inr (Some d)
                \<longrightarrow> \<not> contains t ''AM'' \<longrightarrow> \<not> contains t ''PM''
                \<longrightarrow> date = Some (case strptime (strip t) fmt_H_M of
                                   Inl _ \<Rightarrow> d
                                 | Inr time_obj \<Rightarrow>
                                     (case replace_hm d (hour time_obj) (minute time_obj) of
                                        Inl _ \<Rightarrow> d | Inr d' \<Rightarrow> d')))"
proof -
  from extract_date_time_returns [of "txt"] assms
  have s: "re_search TIME_PATTERN txt = Some t" by auto
  from re_search_sound [OF s] have l: "t \<in> lang TIME_PATTERN" by simp
  have shape: "\<exists>h m suf. t = h @ '':'' @ m @ suf
            \<and> h \<noteq> [] \<and> length h \<le> 2 \<and> list_all is_digit h
            \<and> length m = 2 \<and> list_all is_digit m
            \<and> (suf = [] \<or> (\<exists>w x. suf = w @ [x, CHR ''M''] \<and> x \<in> set ''AP''
                               \<and> length w \<le> 1 \<and> list_all is_space w))"
    by (rule lang_TIME_PATTERN [OF l])
  then have ne: "t \<noteq> []" by auto
  have lc: "set t \<inter> set ''abcdefghijklmnopqrstuvwxyz'' = {}"
    using TIME_PATTERN_chars [OF l] lowercase_not_time_char by blast
  have h24: "date = Some (case strptime (strip t) fmt_H_M of
                                   Inl _ \<Rightarrow> d
                                 | Inr time_obj \<Rightarrow>
                                     (case replace_hm d (hour time_obj) (minute time_obj) of
                                        Inl _ \<Rightarrow> d | Inr d' \<Rightarrow> d'))"
    if d: "find_date DATE_PATTERNS txt = Inr (Some d)"
      and am: "\<not> contains t ''AM''" and pm: "\<not> contains t ''PM''" for d
  proof -
    have at: "apply_time d t = (case strptime (strip t) fmt_H_M of
                Inl e \<Rightarrow> Inl e
              | Inr time_obj \<Rightarrow> replace_hm d (hour time_obj) (minute time_obj))"
      using am pm by (simp add: apply_time_def)
    from assms have "(case apply_time d t of Inr d' \<Rightarrow> Inr (Some d', Some t)
                      | Inl _ \<Rightarrow> Inr (Some d, Some t)) = Inr (date, Some t)"
      unfolding extract_date_time_cases d s using ne by (auto split: sum.splits)
    then show ?thesis
      unfolding at by (auto split: sum.splits)
  qed
  from shape lc h24 show ?thesis by blast
qed

theorem time_suffix_uppercase_only_witness:
  "extract_date_time ''27 Nov 2024 6:30 pm'' = Inr (Some (mk_datetime 2024 11 27 6 30), Some ''6:30'')
   \<and> set ''6:30'' \<inter> set ''abcdefghijklmnopqrstuvwxyz'' = {}
   \<and> Some (mk_datetime 2024 11 27 6 30)
       = Some (case strptime (strip ''6:30'') fmt_H_M of
                 Inl _ \<Rightarrow> mk_datetime 2024 11 27 0 0
               | Inr time_obj \<Rightarrow>
                   (case replace_hm (mk_datetime 2024 11 27 0 0) (hour time_obj) (minute time_obj) of
                      Inl _ \<Rightarrow> mk_datetime 2024 11 27 0 0 | Inr d' \<Rightarrow> d'))"
proof -
  have e: "extract_date_time ''27 Nov 2024 6:30 pm''
           = Inr (Some (mk_datetime 2024 11 27 6 30), Some ''6:30'')" by code_simp
  have f: "find_date DATE_PATTERNS ''27 Nov 2024 6:30 pm'' = Inr (Some (mk_datetime 2024 11 27 0 0))"
    by code_simp
  have am: "\<not> contains ''6:30'' ''AM''" by code_simp
  have pm: "\<not> contains ''6:30'' ''PM''" by code_simp
  from time_suffix_uppercase_only [OF e] f am pm e show ?thesis by blast
qed

subsection \<open>C6: ordering twice\<close>

text \<open>
  C6. Ordering is idempotent: for every input list, \<^verbatim>\<open>order(order(tasks))\<close> and
  \<^verbatim>\<open>order(tasks)\<close> are the same, the same list when the ordering returns and the same
  exception when it raises. In particular the ordering of an ordered list returns, and
  returns that list.
\<close>

theorem order_tasks_idempotent:
  "order_twice parse_datetime tasks = order_tasks parse_datetime tasks
   \<and> (\<forall>out. order_tasks parse_datetime tasks = Inr out
          \<longrightarrow> order_tasks parse_datetime out = Inr out)"
proof (cases "order_tasks parse_datetime tasks")
  case (Inl e)
  then show ?thesis by (simp add: order_twice_def)
next
  case (Inr out)
  with order_tasks_again [OF Inr] show ?thesis by (simp add: order_twice_def)
qed

theorem order_tasks_idempotent_witness:
  "order_twice parse_datetime_iso [task_regular, task_done, task_urgent, task_another]
     = Inr [task_done, task_urgent, task_regular, task_another]
   \<and> order_tasks parse_datetime_iso [task_done, task_urgent, task_regular, task_another]
     = Inr [task_done, task_urgent, task_regular, task_another]
   \<and> order_twice parse_datetime_iso [task_untitled] = Inl (KeyError ''title'')"
proof -
  let ?L = "[task_regular, task_done, task_urgent, task_another]"
  have u: "order_tasks parse_datetime_iso [task_untitled] = Inl (KeyError ''title'')"
    by (simp add: order_tasks_def sorted_py_def sort_key_task_cases is_completed_def
        task_untitled_def)
  note s = sample_order [of parse_datetime_iso]
  note A = order_tasks_idempotent [of parse_datetime_iso ?L]
  note B = order_tasks_idempotent [of parse_datetime_iso "[task_untitled]"]
  from A s have 1: "order_twice parse_datetime_iso ?L
                    = Inr [task_done, task_urgent, task_regular, task_another]" by simp
  from A s have 2: "order_tasks parse_datetime_iso [task_done, task_urgent, task_regular, task_another]
                    = Inr [task_done, task_urgent, task_regular, task_another]" by blast
  from B u have 3: "order_twice parse_datetime_iso [task_untitled] = Inl (KeyError ''title'')"
    by simp
  from 1 2 3 show ?thesis by simp
qed

subsection \<open>C7: the priority detector\<close>

text \<open>
  C7. For every title and optional notes, \<open>is_priority_task\<close> holds if and only if the
  lowercased text "title, one space, notes" (notes defaulting to the empty string)
  contains, as a plain contiguous substring, the lowercased form of one of the phrases
  ASAP, Urgent, Immediately, Critical, Important, Top Priority, Must Do, High Importance.
\<close>

theorem is_priority_task_iff_spec:
  "is_priority_task title notes \<longleftrightarrow> is_priority_spec title notes"
  unfolding is_priority_task_def is_priority_spec_def PRIORITY_KEYWORDS_def Let_def
    list_ex_iff contains_sublist
  by simp

theorem is_priority_task_iff_spec_witness:
  "is_priority_spec ''Urgent meeting'' (Some ''Important discussion'')
   \<and> \<not> is_priority_spec ''Regular task'' (Some ''Nothing special'')
   \<and> is_priority_spec ''urgent meeting'' (Some ''important discussion'')
   \<and> is_priority_spec ''ASAP task'' None"
proof -
  have a: "is_priority_task ''Urgent meeting'' (Some ''Important discussion'')" by code_simp
  have b: "\<not> is_priority_task ''Regular task'' (Some ''Nothing special'')" by code_simp
  have c: "is_priority_task ''urgent meeting'' (Some ''important discussion'')" by code_simp
  have d: "is_priority_task ''ASAP task'' None" by code_simp
  show ?thesis
    using a b c d is_priority_task_iff_spec by blast
qed

subsection \<open>C8: the extractor always returns\<close>

text \<open>
  C8. \<open>extract_date_time\<close> is total: for every text it returns a pair and raises
  nothing. The second component is the time substring the search finds, parsed or not.
  When every date pattern that matches gives a substring that does not parse, the date
  is \<open>None\<close>. When the date loop finds a date and the time substring does not parse
  (as a 12-hour time with AM/PM, or as a 24-hour time without), the date is returned as
  the loop found it, at midnight.
\<close>

theorem extract_date_time_total:
  "\<exists>date. extract_date_time txt = Inr (date, re_search TIME_PATTERN txt)
     \<and> ((\<forall>(p, f) \<in> set DATE_PATTERNS. \<forall>m. re_search p txt = Some m \<longrightarrow> strptime m f = Inl ValueError)
          \<longrightarrow> date = None)
     \<and> (\<forall>d t. find_date DATE_PATTERNS txt = Inr (Some d) \<and> re_search TIME_PATTERN txt = Some t
                \<and> apply_time d t = Inl ValueError
              \<longrightarrow> date = Some d \<and> hour d = 0 \<and> minute d = 0)"
proof -
  from extract_date_time_returns obtain date
    where e: "extract_date_time txt = Inr (date, re_search TIME_PATTERN txt)" by blast
  have a: "date = None"
    if "\<forall>(p, f) \<in> set DATE_PATTERNS. \<forall>m. re_search p txt = Some m \<longrightarrow> strptime m f = Inl ValueError"
  proof -
    have "find_date DATE_PATTERNS txt = Inr None"
      by (rule find_date_None) (use that in auto)
    with e show ?thesis unfolding extract_date_time_cases by simp
  qed
  have b: "date = Some d \<and> hour d = 0 \<and> minute d = 0"
    if "find_date DATE_PATTERNS txt = Inr (Some d) \<and> re_search TIME_PATTERN txt = Some t
        \<and> apply_time d t = Inl ValueError" for d t
  proof -
    from that e have "date = Some d"
      unfolding extract_date_time_cases by (auto split: if_splits)
    with that find_date_midnight show ?thesis by blast
  qed
  from e a b show ?thesis by blast
qed

theorem extract_date_time_total_witness:
  "extract_date_time ''Nov 27 2024 25:00'' = Inr (Some (mk_datetime 2024 11 27 0 0), Some ''25:00'')
   \<and> extract_date_time ''Pay on 31/02/2024'' = Inr (None, None)"
proof -
  let ?a = "''Nov 27 2024 25:00''" and ?b = "''Pay on 31/02/2024''"
  have a1: "find_date DATE_PATTERNS ?a = Inr (Some (mk_datetime 2024 11 27 0 0))" by code_simp
  have a2: "re_search TIME_PATTERN ?a = Some ''25:00''" by code_simp
  have a3: "apply_time (mk_datetime 2024 11 27 0 0) ''25:00'' = Inl ValueError" by code_simp
  from extract_date_time_total [of ?a] obtain da
    where da: "extract_date_time ?a = Inr (da, re_search TIME_PATTERN ?a)"
      and da': "\<forall>d t. find_date DATE_PATTERNS ?a = Inr (Some d) \<and> re_search TIME_PATTERN ?a = Some t
                \<and> apply_time d t = Inl ValueError
              \<longrightarrow> da = Some d \<and> hour d = 0 \<and> minute d = 0"
    by blast
  from da' a1 a2 a3 have "da = Some (mk_datetime 2024 11 27 0 0)" by blast
  with da a2 have A: "extract_date_time ?a = Inr (Some (mk_datetime 2024 11 27 0 0), Some ''25:00'')"
    by simp
  have p1: "re_search pat_Ymd ?b = None" by code_simp
  have p2: "re_search pat_slash ?b = Some ''31/02/2024''" by code_simp
  have p2a: "strptime ''31/02/2024'' fmt_dmY = Inl ValueError" by code_simp
  have p2b: "strptime ''31/02/2024'' fmt_mdY = Inl ValueError" by code_simp
  have p4: "re_search pat_d_b_Y ?b = None" by code_simp
  have p5: "re_search pat_b_d_comma_Y ?b = None" by code_simp
  have p6: "re_search pat_b_d_Y ?b = None" by code_simp
  have p7: "re_search pat_Y_b_d ?b = None" by code_simp
  have p8: "re_search pat_Y_d_b ?b = None" by code_simp
  have all: "\<forall>(p, f) \<in> set DATE_PATTERNS. \<forall>m. re_search p ?b = Some m \<longrightarrow> strptime m f = Inl ValueError"
    unfolding DATE_PATTERNS_def by (simp add: p1 p2 p2a p2b p4 p5 p6 p7 p8 del: re_search.simps)
  have b2: "re_search TIME_PATTERN ?b = None" by code_simp
  from extract_date_time_total [of ?b] obtain db
    where db: "extract_date_time ?b = Inr (db, re_search TIME_PATTERN ?b)"
      and db': "(\<forall>(p, f) \<in> set DATE_PATTERNS. \<forall>m. re_search p ?b = Some m \<longrightarrow> strptime m f = Inl ValueError)
          \<longrightarrow> db = None"
    by blast
  from db' all have "db = None" by blast
  with db b2 have B: "extract_date_time ?b = Inr (None, None)" by simp
  from A B show ?thesis by simp
qed

subsection \<open>C9: missing required fields\<close>

text \<open>
  C9 as stated: the conversion fails if and only if the record lacks \<^verbatim>\<open>title\<close> or
  \<^verbatim>\<open>id\<close>, with the lookup error of the missing key. The \<^verbatim>\<open>due\<close> field is parsed
  before \<^verbatim>\<open>title\<close> is read, and \<open>parse_datetime\<close> raises \<^verbatim>\<open>ValueError\<close> on
  a string of the right shape that is no date. The first record below has title and id
  and the due \<^verbatim>\<open>2024-13-01T10:00:00Z\<close>: the conversion fails. The second has the
  same due and no title: the conversion fails with \<^verbatim>\<open>ValueError\<close>, not with the
  lookup error.
\<close>

theorem convert_api_item_invalid_due_counterexample:
  "task_invalid_due ''title'' = Some ''Call the bank''
   \<and> task_invalid_due ''id'' = Some ''9''
   \<and> task_invalid_due ''due'' = Some ''2024-13-01T10:00:00Z''
   \<and> parse_datetime_iso ''2024-13-01T10:00:00Z'' = Inl ValueError
   \<and> convert_api_item parse_datetime_iso task_invalid_due = Inl ValueError
   \<and> task_untitled_invalid_due ''title'' = None
   \<and> convert_api_item parse_datetime_iso task_untitled_invalid_due = Inl ValueError"
proof -
  have v: "parse_datetime_iso ''2024-13-01T10:00:00Z'' = Inl ValueError" by code_simp
  have a: "task_invalid_due ''title'' = Some ''Call the bank''
   \<and> task_invalid_due ''id'' = Some ''9''
   \<and> task_invalid_due ''due'' = Some ''2024-13-01T10:00:00Z''"
    by (simp add: task_invalid_due_def)
  have b: "task_untitled_invalid_due ''title'' = None
   \<and> task_untitled_invalid_due ''due'' = Some ''2024-13-01T10:00:00Z''"
    by (simp add: task_untitled_invalid_due_def)
  have c: "convert_api_item parse_datetime_iso task_invalid_due = Inl ValueError"
    unfolding convert_api_item_cases using a v by simp
  have d: "convert_api_item parse_datetime_iso task_untitled_invalid_due = Inl ValueError"
    unfolding convert_api_item_cases using b v by simp
  from v a b c d show ?thesis by simp
qed

text \<open>
  C9, amended. When the record has a \<^verbatim>\<open>due\<close> field on which \<open>parse_datetime\<close>
  raises, \<open>convert_api_item\<close> fails with that exception, whatever other keys the
  record has. Otherwise (no \<^verbatim>\<open>due\<close> field, or one on which \<open>parse_datetime\<close>
  returns, be it a timestamp or nothing) it fails if and only if the record lacks the
  key \<^verbatim>\<open>title\<close> or the key \<^verbatim>\<open>id\<close>, and it then fails with the lookup error of
  the missing key (\<^verbatim>\<open>title\<close> first); the absence of \<^verbatim>\<open>status\<close>, \<^verbatim>\<open>due\<close> or
  \<^verbatim>\<open>notes\<close> never makes it fail. When it returns, summary and uid are the record's
  title and id: nothing is substituted for them.
\<close>

theorem convert_api_item_error_cases:
  "(\<forall>due_str e. item ''due'' = Some due_str \<and> parse_datetime due_str = Inl e
        \<longrightarrow> convert_api_item parse_datetime item = Inl e)
   \<and> (item ''due'' = None \<or> (\<exists>due_str d. item ''due'' = Some due_str \<and> parse_datetime due_str = Inr d)
        \<longrightarrow> (convert_api_item parse_datetime item = Inl (KeyError ''title'')
               \<longleftrightarrow> item ''title'' = None)
          \<and> (convert_api_item parse_datetime item = Inl (KeyError ''id'')
               \<longleftrightarrow> item ''title'' \<noteq> None \<and> item ''id'' = None)
          \<and> ((\<exists>e. convert_api_item parse_datetime item = Inl e)
               \<longleftrightarrow> item ''title'' = None \<or> item ''id'' = None))
   \<and> (\<forall>r. convert_api_item parse_datetime item = Inr r
          \<longrightarrow> item ''title'' = Some (summary r) \<and> uid r = item ''id''
              \<and> description r = item ''notes'')"
proof -
  have A: "\<forall>due_str e. item ''due'' = Some due_str \<and> parse_datetime due_str = Inl e
        \<longrightarrow> convert_api_item parse_datetime item = Inl e"
    unfolding convert_api_item_cases by simp
  have B: "(convert_api_item parse_datetime item = Inl (KeyError ''title'')
               \<longleftrightarrow> item ''title'' = None)
          \<and> (convert_api_item parse_datetime item = Inl (KeyError ''id'')
               \<longleftrightarrow> item ''title'' \<noteq> None \<and> item ''id'' = None)
          \<and> ((\<exists>e. convert_api_item parse_datetime item = Inl e)
               \<longleftrightarrow> item ''title'' = None \<or> item ''id'' = None)"
    if h: "item ''due'' = None
           \<or> (\<exists>due_str d. item ''due'' = Some due_str \<and> parse_datetime due_str = Inr d)"
  proof -
    from h obtain d where d: "(case item ''due'' of Some due_str \<Rightarrow> parse_datetime due_str
                            | None \<Rightarrow> Inr (extracted_due item)) = Inr d"
      by auto
    show ?thesis
      unfolding convert_api_item_cases d
      by (cases "item ''title''"; cases "item ''id''") auto
  qed
  have C: "\<forall>r. convert_api_item parse_datetime item = Inr r
          \<longrightarrow> item ''title'' = Some (summary r) \<and> uid r = item ''id''
              \<and> description r = item ''notes''"
    unfolding convert_api_item_cases
    by (auto split: sum.splits option.splits)
  from A B C show ?thesis by blast
qed

theorem convert_api_item_error_cases_witness:
  "convert_api_item parse_datetime_iso task_invalid_due = Inl ValueError
   \<and> convert_api_item parse_datetime_iso task_untitled = Inl (KeyError ''title'')
   \<and> \<not> (\<exists>e. convert_api_item parse_datetime_iso task_no_due = Inl e)
   \<and> \<not> (\<exists>e. convert_api_item parse_datetime_iso task_bad_due = Inl e)"
proof -
  have v: "parse_datetime_iso ''2024-13-01T10:00:00Z'' = Inl ValueError" by code_simp
  have q: "parse_datetime_iso ''next week'' = Inr None" by code_simp
  have i: "task_invalid_due ''due'' = Some ''2024-13-01T10:00:00Z''"
    by (simp add: task_invalid_due_def)
  have a: "task_untitled ''title'' = None \<and> task_untitled ''due'' = None"
    by (simp add: task_untitled_def)
  have b: "task_no_due ''due'' = None \<and> \<not> (task_no_due ''title'' = None \<or> task_no_due ''id'' = None)"
    by (simp add: task_no_due_def)
  have c: "task_bad_due ''due'' = Some ''next week''
           \<and> \<not> (task_bad_due ''title'' = None \<or> task_bad_due ''id'' = None)"
    by (simp add: task_bad_due_def)
  from convert_api_item_error_cases [of task_invalid_due parse_datetime_iso] i v
  have 1: "convert_api_item parse_datetime_iso task_invalid_due = Inl ValueError" by simp
  from convert_api_item_error_cases [of task_untitled parse_datetime_iso] a
  have 2: "convert_api_item parse_datetime_iso task_untitled = Inl (KeyError ''title'')" by simp
  from convert_api_item_error_cases [of task_no_due parse_datetime_iso] b
  have 3: "\<not> (\<exists>e. convert_api_item parse_datetime_iso task_no_due = Inl e)" by simp
  from convert_api_item_error_cases [of task_bad_due parse_datetime_iso] c q
  have 4: "\<not> (\<exists>e. convert_api_item parse_datetime_iso task_bad_due = Inl e)" by simp
  from 1 2 3 4 show ?thesis by blast
qed

subsection \<open>C10: the ordering is not total\<close>

text \<open>
  C10. \<open>order_tasks\<close> does not return on every list of well-formed records. The
  timestamp that stands for "no due date" is naive, a parsed \<^verbatim>\<open>due\<close> with an offset
  is aware: whenever a list holds two records of the same part with equal priority
  flags, one with an offset-carrying \<^verbatim>\<open>due\<close> and one without \<^verbatim>\<open>due\<close>, the
  ordering raises; when moreover every record of the list has a title and a
  \<^verbatim>\<open>due\<close> on which \<open>parse_datetime\<close> returns, so that every key is computed,
  the comparison of the two keys is undefined and the exception is \<^verbatim>\<open>TypeError\<close>.
  When the ordering returns, any two records of the same part with equal priority flags
  have effective due dates of one kind: both naive or both aware (or both missing, for
  \<^verbatim>\<open>due\<close> strings that do not parse).
\<close>

theorem order_tasks_not_total:
  "(\<forall>a b due_str d.
       (\<forall>t \<in> set tasks. t ''title'' \<noteq> None \<and> due_parses parse_datetime t)
       \<and> a \<in> set tasks \<and> b \<in> set tasks
       \<and> is_completed a = is_completed b \<and> is_priority a = is_priority b
       \<and> a ''due'' = Some due_str \<and> due_str \<noteq> [] \<and> parse_datetime due_str = Inr (Some d)
       \<and> tzinfo d \<noteq> None \<and> b ''due'' = None
     \<longrightarrow> order_tasks parse_datetime tasks = Inl TypeError)
   \<and> (\<forall>a b due_str d.
       a \<in> set tasks \<and> b \<in> set tasks
       \<and> is_completed a = is_completed b \<and> is_priority a = is_priority b
       \<and> a ''due'' = Some due_str \<and> due_str \<noteq> [] \<and> parse_datetime due_str = Inr (Some d)
       \<and> tzinfo d \<noteq> None \<and> b ''due'' = None
     \<longrightarrow> (\<exists>e. order_tasks parse_datetime tasks = Inl e))
   \<and> (\<forall>out. order_tasks parse_datetime tasks = Inr out \<longrightarrow>
        (\<forall>a \<in> set tasks. \<forall>b \<in> set tasks.
           is_completed a = is_completed b \<and> is_priority a = is_priority b
           \<longrightarrow> kind_of (effective_due parse_datetime a) = kind_of (effective_due parse_datetime b)))"
proof (intro conjI allI impI ballI)
  fix a b due_str d
  assume h: "(\<forall>t \<in> set tasks. t ''title'' \<noteq> None \<and> due_parses parse_datetime t)
       \<and> a \<in> set tasks \<and> b \<in> set tasks
       \<and> is_completed a = is_completed b \<and> is_priority a = is_priority b
       \<and> a ''due'' = Some due_str \<and> due_str \<noteq> [] \<and> parse_datetime due_str = Inr (Some d)
       \<and> tzinfo d \<noteq> None \<and> b ''due'' = None"
  then have "effective_due parse_datetime a = Some d"
    using effective_due_present [of a due_str parse_datetime "Some d"] by blast
  with h have "kind_of (effective_due parse_datetime a) = Aware"
    by (simp add: kind_of_def)
  moreover from h have "kind_of (effective_due parse_datetime b) = Naive"
    by (simp add: effective_due_absent)
  ultimately have "kind_of (effective_due parse_datetime a) \<noteq> kind_of (effective_due parse_datetime b)"
    by simp
  with h show "order_tasks parse_datetime tasks = Inl TypeError"
    by (intro order_tasks_mixed_kinds [of tasks parse_datetime a b]) simp_all
next
  fix a b due_str d
  assume h: "a \<in> set tasks \<and> b \<in> set tasks
       \<and> is_completed a = is_completed b \<and> is_priority a = is_priority b
       \<and> a ''due'' = Some due_str \<and> due_str \<noteq> [] \<and> parse_datetime due_str = Inr (Some d)
       \<and> tzinfo d \<noteq> None \<and> b ''due'' = None"
  then have "effective_due parse_datetime a = Some d"
    using effective_due_present [of a due_str parse_datetime "Some d"] by blast
  with h have ka: "kind_of (effective_due parse_datetime a) = Aware"
    by (simp add: kind_of_def)
  from h have kb: "kind_of (effective_due parse_datetime b) = Naive"
    by (simp add: effective_due_absent)
  show "\<exists>e. order_tasks parse_datetime tasks = Inl e"
  proof (cases "order_tasks parse_datetime tasks")
    case (Inl e)
    then show ?thesis by blast
  next
    case (Inr out)
    from h have "kind_of (effective_due parse_datetime a) = kind_of (effective_due parse_datetime b)"
      by (intro order_tasks_uniform_kinds [of parse_datetime tasks out a b]) (simp_all add: Inr)
    with ka kb show ?thesis by simp
  qed
next
  fix out a b
  assume "order_tasks parse_datetime tasks = Inr out" "a \<in> set tasks" "b \<in> set tasks"
    "is_completed a = is_completed b \<and> is_priority a = is_priority b"
  then show "kind_of (effective_due parse_datetime a) = kind_of (effective_due parse_datetime b)"
    by (intro order_tasks_uniform_kinds [of parse_datetime tasks out a b]) simp_all
qed

theorem order_tasks_not_total_witness:
  "order_tasks parse_datetime_iso [task_groceries, task_no_due] = Inl TypeError
   \<and> (\<exists>e. order_tasks parse_datetime_iso [task_invalid_due, task_groceries, task_no_due] = Inl e)
   \<and> kind_of (effective_due parse_datetime_iso task_regular)
       = kind_of (effective_due parse_datetime_iso task_another)"
proof -
  let ?L = "[task_groceries, task_no_due]"
  let ?K = "[task_invalid_due, task_groceries, task_no_due]"
  let ?M = "[task_regular, task_done, task_urgent, task_another]"
  let ?d = "\<lparr>year = 2024, month = 11, day = 28, hour = 10, minute = 0, second = 0,
                    microsecond = 0, tzinfo = Some (0::int)\<rparr>"
  have p: "parse_datetime_iso ''2024-11-28T10:00:00Z'' = Inr (Some ?d)" by code_simp
  have gd: "task_groceries ''due'' = Some ''2024-11-28T10:00:00Z''"
    by (simp add: task_groceries_def)
  have e: "effective_due parse_datetime_iso task_groceries = Some ?d
           \<and> due_parses parse_datetime_iso task_groceries"
    using effective_due_present [where t = task_groceries and parse_datetime = parse_datetime_iso
        and s = "''2024-11-28T10:00:00Z''" and d = "Some ?d"] gd p by simp
  have c: "a \<in> set ?L \<and> b \<in> set ?L
       \<and> is_completed task_groceries = is_completed task_no_due
       \<and> is_priority task_groceries = is_priority task_no_due
       \<and> task_groceries ''due'' = Some ''2024-11-28T10:00:00Z'' \<and> ''2024-11-28T10:00:00Z'' \<noteq> []
       \<and> parse_datetime_iso ''2024-11-28T10:00:00Z'' = Inr (Some ?d)
       \<and> tzinfo ?d \<noteq> None \<and> task_no_due ''due'' = None"
    if "a = task_groceries" "b = task_no_due" for a b
    using that by (simp add: sample_completed sample_not_priority p gd) (simp add: task_no_due_def)
  from e have dp: "due_parses parse_datetime_iso task_groceries" by simp
  have h: "(\<forall>t \<in> set ?L. t ''title'' \<noteq> None \<and> due_parses parse_datetime_iso t)"
    by (simp add: sample_titled sample_parses dp)
  from order_tasks_not_total [of ?L parse_datetime_iso] h c [OF refl refl]
  have 1: "order_tasks parse_datetime_iso ?L = Inl TypeError" by blast
  have k: "task_groceries \<in> set ?K \<and> task_no_due \<in> set ?K" by simp
  from order_tasks_not_total [of ?K parse_datetime_iso] k c [OF refl refl]
  have 2: "\<exists>e. order_tasks parse_datetime_iso ?K = Inl e" by blast
  have m: "task_regular \<in> set ?M \<and> task_another \<in> set ?M
           \<and> is_completed task_regular = is_completed task_another
           \<and> is_priority task_regular = is_priority task_another"
    by (simp add: sample_completed sample_not_priority)
  from order_tasks_not_total [of ?M parse_datetime_iso] sample_order [of parse_datetime_iso] m
  have 3: "kind_of (effective_due parse_datetime_iso task_regular)
       = kind_of (effective_due parse_datetime_iso task_another)" by blast
  from 1 2 3 show ?thesis by simp
qed

end
